theory Spec2Isabelle
  imports Main "HOL-Library.Word"
begin

unbundle bit_operations_syntax

section \<open>Binary property stream\<close>

type_synonym byte = "8 word"
type_synonym u16 = "16 word"
type_synonym u32 = "32 word"

text \<open>
  Modelled from the spec: the classes PropStream and PropWriteStream are not part of
  the sources at hand. Section 4.1 of the specification fixes them: every scalar has a
  fixed width and a little-endian layout, a write appends, and a read either advances
  the cursor by the width of the scalar or fails and leaves the cursor where it was.
  The read cursor is the list of the bytes not yet consumed.
\<close>

definition write_u8 :: "byte list \<Rightarrow> byte \<Rightarrow> byte list" where
  "write_u8 stream v = stream @ [v]"

definition write_u16 :: "byte list \<Rightarrow> u16 \<Rightarrow> byte list" where
  "write_u16 stream v = stream @ [ucast v, ucast (drop_bit 8 v)]"

definition write_u32 :: "byte list \<Rightarrow> u32 \<Rightarrow> byte list" where
  "write_u32 stream v =
     stream @ [ucast v, ucast (drop_bit 8 v), ucast (drop_bit 16 v), ucast (drop_bit 24 v)]"

fun read_u8 :: "byte list \<Rightarrow> (byte \<times> byte list) option" where
  "read_u8 (b0 # r) = Some (b0, r)"
| "read_u8 [] = None"

fun read_u16 :: "byte list \<Rightarrow> (u16 \<times> byte list) option" where
  "read_u16 (b0 # b1 # r) = Some (ucast b0 OR push_bit 8 (ucast b1), r)"
| "read_u16 _ = None"

fun read_u32 :: "byte list \<Rightarrow> (u32 \<times> byte list) option" where
  "read_u32 (b0 # b1 # b2 # b3 # r) =
     Some (ucast b0 OR push_bit 8 (ucast b1) OR push_bit 16 (ucast b2)
             OR push_bit 24 (ucast b3), r)"
| "read_u32 _ = None"

section \<open>Items, item types, tiles\<close>

text \<open>
  Modelled from the spec: the classes Item, Container, BedItem and Door, ItemType,
  Position and Tile are not part of the sources at hand; the data model of section 3 of
  the specification gives them. The capability of an item is what \<open>getContainer\<close>,
  \<open>getBed\<close> (the cast to BedItem) and \<open>getDoor\<close> answer; an item is a plain item, a
  container, a bed or a door.
\<close>

datatype capability = Plain | ContainerCap | BedCap | DoorCap

text \<open>
  An item: its type id, its attribute set (entries in the order they were set), its
  capability and, for a container, the counter \<open>serializationCount\<close> and the children in
  live iteration order.
\<close>

datatype Item =
  Item (getID: u16) (attributes: "(byte \<times> u32) list") (capability: capability)
       (serializationCount: u32) (itemlist: "Item list")

definition getContainer :: "Item \<Rightarrow> bool" where
  "getContainer item = (capability item = ContainerCap)"

definition getBed :: "Item \<Rightarrow> bool" where
  "getBed item = (capability item = BedCap)"

definition getDoor :: "Item \<Rightarrow> bool" where
  "getDoor item = (capability item = DoorCap)"

text \<open>
  Modelled from the spec: the capability flags of an item type that the serializer
  reads. \<open>savedToHouses\<close> is the persistence-eligibility flag of section 4.4 of the
  specification, which \<open>Item::isSavedToHouses\<close> answers.
\<close>

record ItemType =
  moveable :: bool
  isCarpet :: bool
  isBed :: bool
  isDoor :: bool
  m_transformOnUse :: u16
  savedToHouses :: bool

text \<open>
  The item type registry \<open>Item::items\<close> and the factory \<open>Item::CreateItem\<close>, which
  answers no item for an id it cannot instantiate. Neither is part of the sources at
  hand: both are parameters of the model.
\<close>

record registry =
  items :: "u16 \<Rightarrow> ItemType"
  CreateItem :: "u16 \<Rightarrow> Item option"

definition isSavedToHouses :: "registry \<Rightarrow> Item \<Rightarrow> bool" where
  "isSavedToHouses E item = savedToHouses (items E (getID item))"

record Position =
  pos_x :: u16
  pos_y :: u16
  pos_z :: byte

text \<open>A tile: its position and its item list, which a tile may lack (\<open>getItemList\<close>).\<close>

record Tile =
  getPosition :: Position
  getItemList :: "Item list option"

section \<open>Attribute blob\<close>

text \<open>
  Modelled from the spec: \<open>Item::serializeAttr\<close> and \<open>Item::unserializeAttr\<close> are not
  part of the sources at hand. The specification has the attribute set as keys with
  typed values of fixed width, written as one blob that ends at the 0x00 marker; a
  container's blob ends at the container marker and its child count, which the reader
  stores in \<open>serializationCount\<close>. An entry is a key byte and a 32-bit value. A key that
  the item cannot take, or a value cut short, is a decode failure. The sleeper of a bed
  is the value last set for the key \<open>ATTR_SLEEPERGUID\<close>, and 0 when none was set. The
  numeric values of the two keys below are those of the attribute enumeration; only
  that they differ from 0 and from each other matters.
\<close>

definition ATTR_CONTAINER_ITEMS :: byte where
  "ATTR_CONTAINER_ITEMS = 23"

definition ATTR_SLEEPERGUID :: byte where
  "ATTR_SLEEPERGUID = 20"

fun serializeAttr :: "byte list \<Rightarrow> (byte \<times> u32) list \<Rightarrow> byte list" where
  "serializeAttr stream [] = stream"
| "serializeAttr stream ((k, v) # as) = serializeAttr (write_u32 (write_u8 stream k) v) as"

definition setAttribute :: "Item \<Rightarrow> byte \<Rightarrow> u32 \<Rightarrow> Item" where
  "setAttribute item k v =
     Item (getID item) (attributes item @ [(k, v)]) (capability item)
          (serializationCount item) (itemlist item)"

definition setSerializationCount :: "Item \<Rightarrow> u32 \<Rightarrow> Item" where
  "setSerializationCount item n =
     Item (getID item) (attributes item) (capability item) n (itemlist item)"

function unserializeAttr :: "Item \<Rightarrow> byte list \<Rightarrow> bool \<times> Item \<times> byte list" where
  "unserializeAttr item stream =
     (case read_u8 stream of
        None \<Rightarrow> (False, item, stream)
      | Some (attr_type, s1) \<Rightarrow>
          if attr_type = 0 then (True, item, s1)
          else if attr_type = ATTR_CONTAINER_ITEMS then
            (if getContainer item then
               (case read_u32 s1 of
                  None \<Rightarrow> (False, item, s1)
                | Some (n, s2) \<Rightarrow> (True, setSerializationCount item n, s2))
             else (False, item, s1))
          else
            (case read_u32 s1 of
               None \<Rightarrow> (False, item, s1)
             | Some (v, s2) \<Rightarrow> unserializeAttr (setAttribute item attr_type v) s2))"
  by pat_completeness auto
termination
  by (relation "measure (\<lambda>(item, stream). length stream)")
     (auto elim!: read_u8.elims read_u32.elims)

definition getSleeper :: "Item \<Rightarrow> u32" where
  "getSleeper item =
     (case map_of (rev (attributes item)) ATTR_SLEEPERGUID of None \<Rightarrow> 0 | Some g \<Rightarrow> g)"

section \<open>Encoding: saveItem and saveTile\<close>

lemma size_itemlist: "child \<in> set (itemlist item) \<Longrightarrow> size child < size item"
  by (cases item) (auto simp: less_Suc_eq_le dest: size_list_estimation')

function saveItem :: "byte list \<Rightarrow> Item \<Rightarrow> byte list" where
  "saveItem stream item =
     (let s1 = write_u16 stream (getID item);
          s2 = serializeAttr s1 (attributes item);
          s3 = (if getContainer item then
                  foldl saveItem
                    (write_u32 (write_u8 s2 ATTR_CONTAINER_ITEMS) (of_nat (length (itemlist item))))
                    (rev (itemlist item))
                else s2)
      in write_u8 s3 0)"
  by pat_completeness auto
termination
  by (relation "measure (\<lambda>(stream, item). size item)") (auto simp: size_itemlist)

text \<open>
  The loop of \<open>saveTile\<close> over the tile's items: a qualifying item is pushed to the
  front of the forward list and the 16-bit counter is incremented.
\<close>

definition saveTile_collect :: "registry \<Rightarrow> Item list \<Rightarrow> Item list \<times> u16" where
  "saveTile_collect E tileItems =
     foldl (\<lambda>(its, count) item.
              if \<not> isSavedToHouses E item then (its, count) else (item # its, count + 1))
           ([], 0) tileItems"

definition saveTile :: "registry \<Rightarrow> byte list \<Rightarrow> Tile \<Rightarrow> byte list" where
  "saveTile E stream tile =
     (case getItemList tile of
        None \<Rightarrow> stream
      | Some tileItems \<Rightarrow>
          (let (its, count) = saveTile_collect E tileItems in
           if its \<noteq> [] then
             (let tilePosition = getPosition tile;
                  s1 = write_u16 stream (pos_x tilePosition);
                  s2 = write_u16 s1 (pos_y tilePosition);
                  s3 = write_u8 s2 (pos_z tilePosition);
                  s4 = write_u32 s3 (ucast count)
              in foldl saveItem s4 its)
           else stream))"

declare saveItem.simps [simp del]
declare unserializeAttr.simps [simp del]

section \<open>Decoding: loadItem and loadContainer\<close>

text \<open>
  The part of the game state that decoding touches: the bed-sleeper bookkeeping
  (\<open>removeBedSleeper\<close>), the ids of the items handed to \<open>startDecaying\<close>, in call
  order, and the pending house transfers (\<open>setTransferPlayerHouseItems\<close>).
\<close>

record Game =
  bedSleepers :: "u32 set"
  decaying :: "u16 list"
  transferHouseItemsToPlayer :: "u32 \<rightharpoonup> u32"

text \<open>
  Modelled from the spec: \<open>Game::removeBedSleeper\<close>, \<open>Item::startDecaying\<close> and
  \<open>Game::transformItem\<close> are not part of the sources at hand. Releasing a sleeper
  erases its guid from the bookkeeping; a type transformation gives the item the decoded
  id (no change when the ids agree).
\<close>

definition removeBedSleeper :: "Game \<Rightarrow> u32 \<Rightarrow> Game" where
  "removeBedSleeper g guid = g\<lparr>bedSleepers := bedSleepers g - {guid}\<rparr>"

definition startDecaying :: "Item \<Rightarrow> Game \<Rightarrow> Game" where
  "startDecaying item g = g\<lparr>decaying := decaying g @ [getID item]\<rparr>"

definition transformItem :: "Item \<Rightarrow> u16 \<Rightarrow> Item" where
  "transformItem item newId =
     Item newId (attributes item) (capability item) (serializationCount item) (itemlist item)"

text \<open>
  Modelled from the spec: a cylinder, the root of a placement, is a tile or a container.
  \<open>getTile\<close> is what \<open>loadItem\<close> resolves as the target tile: the tile itself when
  the parent is one, and none when the parent is a container (a container under
  decoding is not placed on a tile yet, and one that is placed has a parent).
  \<open>internalAddThing\<close> puts the item in front of those already there: the specification
  has the on-disk order as the reverse of the live order and has decoding restore the
  live order.
\<close>

datatype Cylinder = TileCyl Tile | ContainerCyl Item

fun getTile :: "Cylinder \<Rightarrow> Tile option" where
  "getTile (TileCyl t) = Some t"
| "getTile (ContainerCyl c) = None"

fun internalAddThing :: "Cylinder \<Rightarrow> Item \<Rightarrow> Cylinder" where
  "internalAddThing (TileCyl t) item =
     TileCyl (t\<lparr>getItemList := Some (item # (case getItemList t of None \<Rightarrow> [] | Some l \<Rightarrow> l))\<rparr>)"
| "internalAddThing (ContainerCyl c) item =
     ContainerCyl (Item (getID c) (attributes c) (capability c) (serializationCount c)
                        (item # itemlist c))"

definition NEW_BEDS_START_ID :: u32 where
  "NEW_BEDS_START_ID = 30000"

text \<open>
  The scan of \<open>loadItem\<close> over the tile's item list: the first item that matches, with
  its index in the list.
\<close>

fun findStationaryItem :: "ItemType \<Rightarrow> u16 \<Rightarrow> Item list \<Rightarrow> (nat \<times> Item) option" where
  "findStationaryItem iType itemId [] = None"
| "findStationaryItem iType itemId (findItem # rest) =
     (if getID findItem = itemId then Some (0, findItem)
      else if m_transformOnUse iType \<noteq> 0 \<and> getID findItem = m_transformOnUse iType
        then Some (0, findItem)
      else if isDoor iType \<and> getDoor findItem then Some (0, findItem)
      else if isBed iType \<and> getBed findItem then Some (0, findItem)
      else map_option (\<lambda>(i, item). (Suc i, item)) (findStationaryItem iType itemId rest))"

text \<open>
  The tile holds its items by reference, so what decoding does to a matched item is
  seen in the tile's list, at the item's index.
\<close>

definition replaceItem :: "Tile \<Rightarrow> nat \<Rightarrow> Item \<Rightarrow> Tile" where
  "replaceItem t i item =
     t\<lparr>getItemList := map_option (\<lambda>l. l[i := item]) (getItemList t)\<rparr>"

text \<open>
  \<open>loadItem\<close> and \<open>loadContainer\<close> answer the result flag, the stream cursor, the
  parent (the container) as the call leaves it, and the game state. The parent that
  \<open>loadContainer\<close> hands to \<open>loadItem\<close> is a container and comes back as one.
\<close>

function loadItem ::
    "registry \<Rightarrow> byte list \<Rightarrow> Cylinder \<Rightarrow> bool \<Rightarrow> Game \<Rightarrow> bool \<times> byte list \<times> Cylinder \<times> Game"
  and loadContainer ::
    "registry \<Rightarrow> byte list \<Rightarrow> Item \<Rightarrow> Game \<Rightarrow> bool \<times> byte list \<times> Item \<times> Game"
where
  "loadItem E propStream parent isHouseItem g =
     (case read_u16 propStream of
        None \<Rightarrow> (False, propStream, parent, g)
      | Some (itemId, s1) \<Rightarrow>
          (let tile = getTile parent; iType = items E itemId in
           if isHouseItem \<and> isBed iType \<and> ucast itemId < NEW_BEDS_START_ID then
             (False, s1, parent, g)
           else if moveable iType \<or> tile = None \<or> isCarpet iType \<or> isBed iType then
             (case CreateItem E itemId of
                None \<Rightarrow> (True, s1, parent, g)
              | Some item \<Rightarrow>
                  (case unserializeAttr item s1 of
                     (True, item1, s2) \<Rightarrow>
                       if getContainer item1 then
                         (case loadContainer E s2 item1 g of
                            (False, s3, item2, g1) \<Rightarrow> (False, s3, parent, g1)
                          | (True, s3, item2, g1) \<Rightarrow>
                              (True, s3, internalAddThing parent item2, startDecaying item2 g1))
                       else (True, s2, internalAddThing parent item1, startDecaying item1 g)
                   | (False, item1, s2) \<Rightarrow> (False, s2, parent, g)))
           else
             (case (case getItemList (the tile) of
                      None \<Rightarrow> None
                    | Some tileItems \<Rightarrow> findStationaryItem iType itemId tileItems) of
                Some (i, item) \<Rightarrow>
                  (case unserializeAttr item s1 of
                     (True, item1, s2) \<Rightarrow>
                       if getContainer item1 then
                         (case loadContainer E s2 item1 g of
                            (False, s3, item2, g1) \<Rightarrow>
                              (False, s3, TileCyl (replaceItem (the tile) i item2), g1)
                          | (True, s3, item2, g1) \<Rightarrow>
                              (True, s3,
                               TileCyl (replaceItem (the tile) i (transformItem item2 itemId)), g1))
                       else
                         (True, s2, TileCyl (replaceItem (the tile) i (transformItem item1 itemId)), g)
                   | (False, item1, s2) \<Rightarrow>
                       (True, s2, TileCyl (replaceItem (the tile) i item1), g))
              | None \<Rightarrow>
                  (case CreateItem E itemId of
                     None \<Rightarrow> (True, s1, parent, g)
                   | Some dummy \<Rightarrow>
                       (case unserializeAttr dummy s1 of
                          (ok, dummy1, s2) \<Rightarrow>
                            if getContainer dummy1 then
                              (case loadContainer E s2 dummy1 g of
                                 (False, s3, dummy2, g1) \<Rightarrow> (False, s3, parent, g1)
                               | (True, s3, dummy2, g1) \<Rightarrow> (True, s3, parent, g1))
                            else if getBed dummy1 then
                              (let sleeperGUID = getSleeper dummy1 in
                               if sleeperGUID \<noteq> 0
                               then (True, s2, parent, removeBedSleeper g sleeperGUID)
                               else (True, s2, parent, g))
                            else (True, s2, parent, g))))))"
| "loadContainer E propStream container g =
     (if 0 < serializationCount container then
        (case loadItem E propStream (ContainerCyl container) False g of
           (False, s1, parent1, g1) \<Rightarrow>
             (False, s1, (case parent1 of ContainerCyl c \<Rightarrow> c | TileCyl t \<Rightarrow> container), g1)
         | (True, s1, parent1, g1) \<Rightarrow>
             (let c1 = (case parent1 of ContainerCyl c \<Rightarrow> c | TileCyl t \<Rightarrow> container) in
              loadContainer E s1 (setSerializationCount c1 (serializationCount c1 - 1)) g1))
      else
        (case read_u8 propStream of
           None \<Rightarrow> (False, propStream, container, g)
         | Some (endAttr, s1) \<Rightarrow>
             if endAttr \<noteq> 0 then (False, s1, container, g) else (True, s1, container, g)))"
  by pat_completeness auto


text \<open>
  Termination: a successful \<open>loadItem\<close> consumes the two bytes of the id at least, so
  the loop of \<open>loadContainer\<close> runs on an ever shorter stream.
\<close>

lemma read_u16_length: "read_u16 s = Some (v, r) \<Longrightarrow> length s = length r + 2"
  by (erule read_u16.elims) auto

lemma read_u8_length: "read_u8 s = Some (v, r) \<Longrightarrow> length s = length r + 1"
  by (erule read_u8.elims) auto

lemma read_u32_length: "read_u32 s = Some (v, r) \<Longrightarrow> length s = length r + 4"
  by (erule read_u32.elims) auto

lemma unserializeAttr_length:
  "unserializeAttr item s = (ok, item', s') \<Longrightarrow> length s' \<le> length s"
proof (induction item s rule: unserializeAttr.induct)
  case (1 item stream)
  show ?case
  proof (cases "read_u8 stream")
    case None
    with "1.prems" show ?thesis by (simp add: unserializeAttr.simps [of item stream])
  next
    case (Some a)
    obtain k s1 where a: "a = (k, s1)" by (cases a)
    have l1: "length stream = length s1 + 1" using Some a by (simp add: read_u8_length)
    show ?thesis
    proof (cases "k = 0 \<or> k = ATTR_CONTAINER_ITEMS")
      case True
      with "1.prems" Some a l1 show ?thesis
        by (auto simp: unserializeAttr.simps [of item stream] 
                 split: if_splits option.splits dest: read_u32_length)
    next
      case False
      show ?thesis
      proof (cases "read_u32 s1")
        case None
        with "1.prems" Some a l1 False show ?thesis
          by (auto simp: unserializeAttr.simps [of item stream])
      next
        case (Some b)
        obtain v s2 where b: "b = (v, s2)" by (cases b)
        have l2: "length s1 = length s2 + 4" using Some b by (simp add: read_u32_length)
        have "unserializeAttr (setAttribute item k v) s2 = (ok, item', s')"
          using "1.prems" \<open>read_u8 stream = Some a\<close> a False Some b
          by (simp add: unserializeAttr.simps [of item stream])
        from "1.IH" [OF \<open>read_u8 stream = Some a\<close> a [symmetric] _ _ Some b [symmetric] this]
        have "length s' \<le> length s2" using False by simp
        with l1 l2 show ?thesis by simp
      qed
    qed
  qed
qed


lemma loadItem_loadContainer_length:
  "loadItem_loadContainer_dom (Inl (E, s, p, h, g)) \<Longrightarrow>
     length (fst (snd (loadItem E s p h g))) \<le> length s \<and>
     (fst (loadItem E s p h g) \<longrightarrow> length (fst (snd (loadItem E s p h g))) < length s)"
  "loadItem_loadContainer_dom (Inr (E, s, c, g)) \<Longrightarrow>
     length (fst (snd (loadContainer E s c g))) \<le> length s"
proof (induct rule: loadItem_loadContainer.pinduct)
  case (1 E propStream parent isHouseItem g)
  note dom = "1.hyps"(1)
  note ps = loadItem.psimps [OF dom]
  show ?case
  proof (cases "read_u16 propStream")
    case None
    then show ?thesis by (simp add: ps)
  next
    case (Some a)
    obtain itemId s1 where a: "a = (itemId, s1)" by (cases a)
    note rd = Some [unfolded a]
    have l1: "length propStream = length s1 + 2" using rd by (rule read_u16_length)
    let ?iType = "items E itemId"
    show ?thesis
    proof (cases "isHouseItem \<and> isBed ?iType \<and> ucast itemId < NEW_BEDS_START_ID")
      case True
      show ?thesis unfolding ps rd using True l1 by (simp add: Let_def)
    next
      case legacy: False
      show ?thesis
      proof (cases "moveable ?iType \<or> getTile parent = None \<or> isCarpet ?iType \<or> isBed ?iType")
        case fresh: True
        show ?thesis
        proof (cases "CreateItem E itemId")
          case None
          then show ?thesis using l1 legacy fresh by (simp add: ps rd Let_def)
        next
          case (Some item)
          obtain ok item1 s2 where u: "unserializeAttr item s1 = (ok, item1, s2)"
            by (cases "unserializeAttr item s1") auto
          have l2: "length s2 \<le> length s1" using u by (rule unserializeAttr_length)
          show ?thesis
          proof (cases "ok \<and> getContainer item1")
            case False
            then show ?thesis using l1 l2 legacy fresh Some u
              by (cases ok) (auto simp: ps rd Let_def)
          next
            case True
            obtain okc s3 item2 g1 where lc: "loadContainer E s2 item1 g = (okc, s3, item2, g1)"
              by (cases "loadContainer E s2 item1 g") auto
            have "length (fst (snd (loadContainer E s2 item1 g))) \<le> length s2"
              using legacy fresh True
              by (intro "1.hyps"(2) [OF rd refl refl refl _ _ Some u [symmetric] _ refl])
                 (auto simp:)
            then have l3: "length s3 \<le> length s2" by (simp add: lc)
            show ?thesis using l1 l2 l3 legacy fresh Some u True lc
              by (cases okc) (auto simp: ps rd Let_def)
          qed
        qed
      next
        case stat: False
        let ?found = "case getItemList (the (getTile parent)) of None \<Rightarrow> None
                    | Some tileItems \<Rightarrow> findStationaryItem ?iType itemId tileItems"
        show ?thesis
        proof (cases ?found)
          case None
          show ?thesis
          proof (cases "CreateItem E itemId")
            case cn: None
            then show ?thesis using l1 legacy stat None
              by (simp add: ps rd Let_def)
          next
            case (Some dummy)
            obtain ok dummy1 s2 where u: "unserializeAttr dummy s1 = (ok, dummy1, s2)"
              by (cases "unserializeAttr dummy s1") auto
            have l2: "length s2 \<le> length s1" using u by (rule unserializeAttr_length)
            show ?thesis
            proof (cases "getContainer dummy1")
              case False
              then show ?thesis using l1 l2 legacy stat Some u None
                by (auto simp: ps rd Let_def)
            next
              case True
              obtain okc s3 item2 g1 where lc: "loadContainer E s2 dummy1 g = (okc, s3, item2, g1)"
                by (cases "loadContainer E s2 dummy1 g") auto
              have "length (fst (snd (loadContainer E s2 dummy1 g))) \<le> length s2"
                using legacy stat True None
                by (intro "1.hyps"(3) [OF rd refl refl refl _ _ _ Some u [symmetric] refl])
                   (auto simp:)
              then have l3: "length s3 \<le> length s2" by (simp add: lc)
              show ?thesis using l1 l2 l3 legacy stat Some u True lc None
                by (cases okc) (auto simp: ps rd Let_def)
            qed
          qed
        next
          case (Some b)
          obtain i item where b: "b = (i, item)" by (cases b)
          note fnd = Some [unfolded b]
          obtain ok item1 s2 where u: "unserializeAttr item s1 = (ok, item1, s2)"
            by (cases "unserializeAttr item s1") auto
          have l2: "length s2 \<le> length s1" using u by (rule unserializeAttr_length)
          show ?thesis
          proof (cases "ok \<and> getContainer item1")
            case False
            then show ?thesis using l1 l2 legacy stat fnd u
              by (cases ok) (auto simp: ps rd Let_def)
          next
            case True
            obtain okc s3 item2 g1 where lc: "loadContainer E s2 item1 g = (okc, s3, item2, g1)"
              by (cases "loadContainer E s2 item1 g") auto
            have "length (fst (snd (loadContainer E s2 item1 g))) \<le> length s2"
              using legacy stat True fnd
              by (intro "1.hyps"(4) [OF rd refl refl refl _ _ _ refl u [symmetric] _ refl])
                 (auto simp:)
            then have l3: "length s3 \<le> length s2" by (simp add: lc)
            show ?thesis using l1 l2 l3 legacy stat fnd u True lc
              by (cases okc) (auto simp: ps rd Let_def)
          qed
        qed
      qed
    qed
  qed
next
  case (2 E propStream container g)
  note dom = "2.hyps"(1)
  note ps = loadContainer.psimps [OF dom]
  show ?case
  proof (cases "0 < serializationCount container")
    case False
    then show ?thesis
      by (auto simp: ps split: option.splits dest: read_u8_length)
  next
    case True
    obtain ok s1 parent1 g1 where li: "loadItem E propStream (ContainerCyl container) False g = (ok, s1, parent1, g1)"
      by (cases "loadItem E propStream (ContainerCyl container) False g") auto
    from "2.hyps"(2) [OF True] have l1: "length s1 \<le> length propStream"
      by (simp add: li)
    show ?thesis
    proof (cases ok)
      case False
      then show ?thesis using True li l1 by (simp add: ps)
    next
      case ok: True
      define c1 where "c1 = (case parent1 of ContainerCyl c \<Rightarrow> c | TileCyl t \<Rightarrow> container)"
      have "length (fst (snd (loadContainer E s1 (setSerializationCount c1 (serializationCount c1 - 1)) g1))) \<le> length s1"
        using "2.hyps"(3) [OF True li [symmetric] _ refl refl c1_def] ok by simp
      then show ?thesis using True li l1 ok by (simp add: ps Let_def c1_def)
    qed
  qed
qed

termination loadItem
  apply (relation "measure (\<lambda>x. case x of Inl (E, s, p, h, g) \<Rightarrow> 2 * length s | Inr (E, s, c, g) \<Rightarrow> 2 * length s + 1)")
      apply (auto dest!: read_u16_length dest: unserializeAttr_length [OF sym])[5]
  subgoal premises p for E propStream container g ok y s1
  proof -
    have "loadItem E propStream (ContainerCyl container) False g = (True, s1, snd y)"
      using p(2-5) by (cases y) auto
    with loadItem_loadContainer_length(1) [OF p(7)] show ?thesis by simp
  qed
  done

declare loadItem.simps [simp del] loadContainer.simps [simp del]

section \<open>Saving the house items\<close>

text \<open>
  Modelled from the spec: the classes House, Database and DBInsert are not part of the
  sources at hand. A house has the fields the persistence code reads and writes. The
  storage driver is a black box of which the code sees the answers only, so whether the
  clearing query, the adding of a row and the final execution succeed is given with the
  driver; the rows of the prepared insert reach the table when it is executed.
\<close>

record House =
  getId :: u32
  getOwner :: u32
  getPaidUntil :: "64 word"
  getPayRentWarnings :: u32
  getTiles :: "Tile list"
  accessLists :: "u32 \<rightharpoonup> string"

record driver =
  executeQueryOk :: bool
  addRowOk :: "u32 \<times> byte list \<Rightarrow> bool"
  executeOk :: bool

record Database =
  tile_store :: "(u32 \<times> byte list) list"

fun saveHouseTiles ::
  "driver \<Rightarrow> registry \<Rightarrow> u32 \<Rightarrow> Tile list \<Rightarrow> byte list \<times> (u32 \<times> byte list) list \<Rightarrow>
     (byte list \<times> (u32 \<times> byte list) list) option" where
  "saveHouseTiles D E houseId [] (stream, rows) = Some (stream, rows)"
| "saveHouseTiles D E houseId (tile # tiles) (stream, rows) =
     (let attributes = saveTile E stream tile in
      if 0 < length attributes then
        (if \<not> addRowOk D (houseId, attributes) then None
         else saveHouseTiles D E houseId tiles ([], rows @ [(houseId, attributes)]))
      else saveHouseTiles D E houseId tiles (attributes, rows))"

fun saveHouses ::
  "driver \<Rightarrow> registry \<Rightarrow> House list \<Rightarrow> byte list \<times> (u32 \<times> byte list) list \<Rightarrow>
     (byte list \<times> (u32 \<times> byte list) list) option" where
  "saveHouses D E [] st = Some st"
| "saveHouses D E (house # houses) st =
     (case saveHouseTiles D E (getId house) (getTiles house) st of
        None \<Rightarrow> None
      | Some st1 \<Rightarrow> saveHouses D E houses st1)"

definition SaveHouseItemsGuard ::
  "driver \<Rightarrow> registry \<Rightarrow> House list \<Rightarrow> Database \<Rightarrow> bool \<times> Database" where
  "SaveHouseItemsGuard D E houses db =
     (if \<not> executeQueryOk D then (False, db)
      else
        (let db1 = db\<lparr>tile_store := []\<rparr> in
         case saveHouses D E houses ([], []) of
           None \<Rightarrow> (False, db1)
         | Some (stream, rows) \<Rightarrow>
             if \<not> executeOk D then (False, db1)
             else (True, db1\<lparr>tile_store := rows\<rparr>)))"

section \<open>Loading the house items\<close>

text \<open>
  The map answers the tile at a position, or none. The loop \<open>while (item_count--)\<close> of
  \<open>loadHouseItems\<close> calls \<open>loadItem\<close> with the tile as parent and ignores its result;
  a row is one pass of the outer loop, and the rows of the query result are visited in
  order (no row: the query gave no result, and nothing is loaded).
\<close>

type_synonym WorldMap = "Position \<rightharpoonup> Tile"

fun loadTileItems ::
  "registry \<Rightarrow> nat \<Rightarrow> byte list \<Rightarrow> Tile \<Rightarrow> Game \<Rightarrow> byte list \<times> Tile \<times> Game" where
  "loadTileItems E 0 propStream tile g = (propStream, tile, g)"
| "loadTileItems E (Suc item_count) propStream tile g =
     (case loadItem E propStream (TileCyl tile) True g of
        (ok, s1, parent1, g1) \<Rightarrow>
          loadTileItems E item_count s1
            (case parent1 of TileCyl t \<Rightarrow> t | ContainerCyl c \<Rightarrow> tile) g1)"

definition loadHouseRow :: "registry \<Rightarrow> byte list \<Rightarrow> WorldMap \<times> Game \<Rightarrow> WorldMap \<times> Game" where
  "loadHouseRow E attr st =
     (case read_u16 attr of
        None \<Rightarrow> st
      | Some (x, s1) \<Rightarrow>
          (case read_u16 s1 of
             None \<Rightarrow> st
           | Some (y, s2) \<Rightarrow>
               (case read_u8 s2 of
                  None \<Rightarrow> st
                | Some (z, s3) \<Rightarrow>
                    (case fst st \<lparr>pos_x = x, pos_y = y, pos_z = z\<rparr> of
                       None \<Rightarrow> st
                     | Some tile \<Rightarrow>
                         (case read_u32 s3 of
                            None \<Rightarrow> st
                          | Some (item_count, s4) \<Rightarrow>
                              (case loadTileItems E (unat item_count) s4 tile (snd st) of
                                 (s5, tile1, g1) \<Rightarrow>
                                   ((fst st)(\<lparr>pos_x = x, pos_y = y, pos_z = z\<rparr> \<mapsto> tile1),
                                    g1)))))))"

fun loadHouseItems :: "registry \<Rightarrow> byte list list \<Rightarrow> WorldMap \<times> Game \<Rightarrow> WorldMap \<times> Game" where
  "loadHouseItems E [] st = st"
| "loadHouseItems E (attr # result) st = loadHouseItems E result (loadHouseRow E attr st)"

section \<open>Loading the house metadata\<close>

text \<open>
  Modelled from the spec: \<open>House::setOwner\<close> and
  \<open>Game::setTransferPlayerHouseItems\<close> are not part of the sources at hand; the first
  sets the owner of the house (its second argument, whether the storage is updated at
  once, has no part in the state kept here), the second records for the house the player
  who is to receive its items. The configuration value
  \<open>TOGGLE_HOUSE_TRANSFER_ON_SERVER_RESTART\<close> is the argument \<open>isTransferOnRestart\<close>.
  A row of the table \<open>houses\<close> is as \<open>loadHouseInfo\<close> selects it; \<open>new_owner\<close> is read
  as a signed 32-bit number.
\<close>

record HouseRow =
  row_id :: u32
  row_owner :: u32
  row_new_owner :: "32 word"
  row_paid :: "64 word"
  row_warnings :: u32

definition setOwner :: "House \<Rightarrow> u32 \<Rightarrow> House" where
  "setOwner house guid = house\<lparr>getOwner := guid\<rparr>"

definition setTransferPlayerHouseItems :: "Game \<Rightarrow> u32 \<Rightarrow> u32 \<Rightarrow> Game" where
  "setTransferPlayerHouseItems g houseId playerId =
     g\<lparr>transferHouseItemsToPlayer := (transferHouseItemsToPlayer g)(houseId \<mapsto> playerId)\<rparr>"

definition loadHouseInfoRow ::
  "bool \<Rightarrow> HouseRow \<Rightarrow> (u32 \<rightharpoonup> House) \<times> Game \<Rightarrow> (u32 \<rightharpoonup> House) \<times> Game" where
  "loadHouseInfoRow isTransferOnRestart result st =
     (let houseId = row_id result in
      case fst st houseId of
        None \<Rightarrow> st
      | Some house \<Rightarrow>
          (let owner = row_owner result;
               newOwner = row_new_owner result;
               (house1, g1) =
                 (if isTransferOnRestart \<and> 0 \<le> sint newOwner then
                    (let g1 = setTransferPlayerHouseItems (snd st) houseId owner in
                     if newOwner = 0 then (setOwner house 0, g1)
                     else (setOwner house newOwner, g1))
                  else (setOwner house owner, snd st));
               house2 = house1\<lparr>getPaidUntil := row_paid result\<rparr>;
               house3 = house2\<lparr>getPayRentWarnings := row_warnings result\<rparr>
           in ((fst st)(houseId \<mapsto> house3), g1)))"

fun loadHouseLists :: "(u32 \<times> u32 \<times> string) list \<Rightarrow> (u32 \<rightharpoonup> House) \<Rightarrow> (u32 \<rightharpoonup> House)" where
  "loadHouseLists [] houses = houses"
| "loadHouseLists ((house_id, listid, list) # result) houses =
     loadHouseLists result
       (case houses house_id of
          None \<Rightarrow> houses
        | Some house \<Rightarrow>
            houses(house_id \<mapsto> house\<lparr>accessLists := (accessLists house)(listid \<mapsto> list)\<rparr>))"

definition loadHouseInfo ::
  "bool \<Rightarrow> HouseRow list \<Rightarrow> (u32 \<times> u32 \<times> string) list \<Rightarrow> (u32 \<rightharpoonup> House) \<times> Game \<Rightarrow>
     bool \<times> (u32 \<rightharpoonup> House) \<times> Game" where
  "loadHouseInfo isTransferOnRestart result listRows st =
     (if result = [] then (False, st)
      else
        (let (houses1, g1) = foldl (\<lambda>st row. loadHouseInfoRow isTransferOnRestart row st) st result
         in (True, loadHouseLists listRows houses1, g1)))"

section \<open>Decay scheduler\<close>

text \<open>
  Modelled from the spec: of the class Decay the sources at hand hold the declaration
  only (\<open>startDecay\<close>, \<open>stopDecay\<close> and the map from expiry tick to bucket); the bodies
  follow section 4.6 of the specification. Each item is inactive or scheduled at one
  tick. \<open>stopDecay\<close> removes a scheduled item from its bucket and does nothing for an
  item that is not scheduled. \<open>startDecay\<close> first removes an item that is already
  scheduled from its old bucket, computes the expiry tick from the current time and the
  duration configured for the item, and puts the item at the end of the bucket of that
  tick, creating the bucket when there is none.
\<close>

record 'i Decay =
  decayMap :: "int \<rightharpoonup> 'i list"
  scheduledAt :: "'i \<rightharpoonup> int"

definition stopDecay :: "'i \<Rightarrow> 'i Decay \<Rightarrow> 'i Decay" where
  "stopDecay item d =
     (case scheduledAt d item of
        None \<Rightarrow> d
      | Some tick \<Rightarrow>
          d\<lparr>decayMap := (case decayMap d tick of
                           None \<Rightarrow> decayMap d
                         | Some bucket \<Rightarrow> (decayMap d)(tick \<mapsto> remove1 item bucket)),
            scheduledAt := (scheduledAt d)(item := None)\<rparr>)"

definition startDecay :: "('i \<Rightarrow> int) \<Rightarrow> int \<Rightarrow> 'i \<Rightarrow> 'i Decay \<Rightarrow> 'i Decay" where
  "startDecay duration now item d =
     (let d1 = stopDecay item d;
          tick = now + duration item;
          bucket = (case decayMap d1 tick of None \<Rightarrow> [] | Some b \<Rightarrow> b)
      in d1\<lparr>decayMap := (decayMap d1)(tick \<mapsto> bucket @ [item]),
            scheduledAt := (scheduledAt d1)(item \<mapsto> tick)\<rparr>)"

datatype 'i decay_call = StartDecay int 'i | StopDecay 'i

fun decay_step :: "('i \<Rightarrow> int) \<Rightarrow> 'i Decay \<Rightarrow> 'i decay_call \<Rightarrow> 'i Decay" where
  "decay_step duration d (StartDecay now item) = startDecay duration now item d"
| "decay_step duration d (StopDecay item) = stopDecay item d"

definition no_decay :: "'i Decay" where
  "no_decay = \<lparr>decayMap = Map.empty, scheduledAt = Map.empty\<rparr>"

definition decay_run :: "('i \<Rightarrow> int) \<Rightarrow> 'i decay_call list \<Rightarrow> 'i Decay" where
  "decay_run duration calls = foldl (decay_step duration) no_decay calls"

definition bucketsOf :: "'i Decay \<Rightarrow> 'i \<Rightarrow> int set" where
  "bucketsOf d item = {tick. \<exists>bucket. decayMap d tick = Some bucket \<and> item \<in> set bucket}"

section \<open>Notions used in the statements\<close>

text \<open>
  The qualifying items of a tile, the header of a tile blob, the item count as
  \<open>loadHouseItems\<close> reads it from a blob, and the rows that a save pass is to insert.
\<close>

definition qualifyingItems :: "registry \<Rightarrow> Tile \<Rightarrow> Item list" where
  "qualifyingItems E tile =
     (case getItemList tile of None \<Rightarrow> [] | Some tileItems \<Rightarrow> filter (isSavedToHouses E) tileItems)"

definition tileHeader :: "Position \<Rightarrow> u32 \<Rightarrow> byte list" where
  "tileHeader p n = write_u32 (write_u8 (write_u16 (write_u16 [] (pos_x p)) (pos_y p)) (pos_z p)) n"

definition storedItemCount :: "byte list \<Rightarrow> u32 option" where
  "storedItemCount blob =
     (case read_u16 blob of
        None \<Rightarrow> None
      | Some (x, s1) \<Rightarrow>
          (case read_u16 s1 of
             None \<Rightarrow> None
           | Some (y, s2) \<Rightarrow>
               (case read_u8 s2 of
                  None \<Rightarrow> None
                | Some (z, s3) \<Rightarrow> map_option fst (read_u32 s3))))"

definition expectedRows :: "registry \<Rightarrow> House list \<Rightarrow> (u32 \<times> byte list) list" where
  "expectedRows E houses =
     concat (map (\<lambda>house. map (\<lambda>tile. (getId house, saveTile E [] tile))
                           (filter (\<lambda>tile. qualifyingItems E tile \<noteq> []) (getTiles house)))
                 houses)"

text \<open>
  The owner that the decision table of \<open>loadHouseInfo\<close> gives a house, and the invariant
  of the decay scheduler: an item stands once in the bucket of the tick it is scheduled
  at, and in no other bucket.
\<close>

definition ownerAfterLoad :: "bool \<Rightarrow> HouseRow \<Rightarrow> u32" where
  "ownerAfterLoad isTransferOnRestart r =
     (if isTransferOnRestart \<and> 0 \<le> sint (row_new_owner r) then row_new_owner r else row_owner r)"

definition decay_inv :: "'i Decay \<Rightarrow> bool" where
  "decay_inv d =
     (\<forall>item tick. (case decayMap d tick of None \<Rightarrow> 0 | Some bucket \<Rightarrow> count_list bucket item) =
                   (if scheduledAt d item = Some tick then 1 else (0::nat)))"

text \<open>
  The conditions of \<open>loadItem\<close> by name: the legacy guard, the condition under which a
  new item is created, and the outcome of the scan of the tile's item list. The items
  of a cylinder are the items of the tile's list (none when the tile has no list) or
  the children of the container.
\<close>

definition createsNewItem :: "registry \<Rightarrow> u16 \<Rightarrow> Cylinder \<Rightarrow> bool" where
  "createsNewItem E itemId parent =
     (moveable (items E itemId) \<or> getTile parent = None \<or> isCarpet (items E itemId) \<or>
      isBed (items E itemId))"

definition legacyBed :: "registry \<Rightarrow> u16 \<Rightarrow> bool \<Rightarrow> bool" where
  "legacyBed E itemId isHouseItem =
     (isHouseItem \<and> isBed (items E itemId) \<and> ucast itemId < NEW_BEDS_START_ID)"

definition stationaryMatch :: "registry \<Rightarrow> u16 \<Rightarrow> Tile \<Rightarrow> (nat \<times> Item) option" where
  "stationaryMatch E itemId tile =
     (case getItemList tile of
        None \<Rightarrow> None
      | Some tileItems \<Rightarrow> findStationaryItem (items E itemId) itemId tileItems)"

definition cylinderItems :: "Cylinder \<Rightarrow> Item list" where
  "cylinderItems parent =
     (case parent of
        TileCyl t \<Rightarrow> (case getItemList t of None \<Rightarrow> [] | Some l \<Rightarrow> l)
      | ContainerCyl c \<Rightarrow> itemlist c)"

text \<open>
  The items that a save and a load with the same registry can carry: the factory
  creates for the id a blank item of the same capability, no attribute key is one of
  the two markers, only a container has children, and the number of children fits the
  32-bit count. \<open>clearCount\<close> is the item with every \<open>serializationCount\<close> at 0, as a
  load leaves it; \<open>startedDecaying\<close> lists the ids handed to \<open>startDecaying\<close> while the
  item is loaded, in call order.
\<close>

definition validAttribute :: "byte \<times> u32 \<Rightarrow> bool" where
  "validAttribute a = (fst a \<noteq> 0 \<and> fst a \<noteq> ATTR_CONTAINER_ITEMS)"

fun wfItem :: "registry \<Rightarrow> Item \<Rightarrow> bool" where
  "wfItem E (Item i as cap n cs) =
     (CreateItem E i = Some (Item i [] cap 0 []) \<and> list_all validAttribute as \<and>
      (cap \<noteq> ContainerCap \<longrightarrow> cs = []) \<and> length cs < 4294967296 \<and>
      list_all (wfItem E) cs)"

fun clearCount :: "Item \<Rightarrow> Item" where
  "clearCount (Item i as cap n cs) = Item i as cap 0 (map clearCount cs)"

fun startedDecaying :: "Item \<Rightarrow> u16 list" where
  "startedDecaying (Item i as cap n cs) = concat (map startedDecaying (rev cs)) @ [i]"

definition decayingAfter :: "Game \<Rightarrow> u16 list \<Rightarrow> Game" where
  "decayingAfter g ids = g\<lparr>decaying := decaying g @ ids\<rparr>"

definition loadsBack :: "registry \<Rightarrow> Item \<Rightarrow> bool" where
  "loadsBack E x =
     (\<forall>rest parent h g.
        \<not> legacyBed E (getID x) h \<longrightarrow> createsNewItem E (getID x) parent \<longrightarrow>
        loadItem E (saveItem [] x @ rest) parent h g =
          (True, rest, internalAddThing parent (clearCount x),
           decayingAfter g (startedDecaying x)))"

text \<open>The position that \<open>loadHouseItems\<close> reads from the head of a row.\<close>

definition rowPosition :: "byte list \<Rightarrow> Position option" where
  "rowPosition attr =
     (case read_u16 attr of
        None \<Rightarrow> None
      | Some (x, s1) \<Rightarrow>
          (case read_u16 s1 of
             None \<Rightarrow> None
           | Some (y, s2) \<Rightarrow>
               (case read_u8 s2 of
                  None \<Rightarrow> None
                | Some (z, s3) \<Rightarrow> Some \<lparr>pos_x = x, pos_y = y, pos_z = z\<rparr>)))"

text \<open>
  An attribute failure below a container: while the children of \<open>c\<close> are loaded from
  \<open>s\<close>, the attributes of some record fail to decode. The record is the child at hand,
  or a record below the child at hand, which is then a container, or a record met after
  the child at hand has loaded; so the record stands at any position and at any depth.
\<close>

inductive childFails :: "registry \<Rightarrow> byte list \<Rightarrow> Item \<Rightarrow> Game \<Rightarrow> bool" where
  childFails_here:
    "0 < serializationCount c \<Longrightarrow> read_u16 s = Some (itemId, s1) \<Longrightarrow>
     CreateItem E itemId = Some item \<Longrightarrow> \<not> fst (unserializeAttr item s1) \<Longrightarrow>
     childFails E s c g"
| childFails_nested:
    "0 < serializationCount c \<Longrightarrow> read_u16 s = Some (itemId, s1) \<Longrightarrow>
     CreateItem E itemId = Some item \<Longrightarrow> unserializeAttr item s1 = (True, c1, s2) \<Longrightarrow>
     getContainer c1 \<Longrightarrow> childFails E s2 c1 g \<Longrightarrow>
     childFails E s c g"
| childFails_later:
    "0 < serializationCount c \<Longrightarrow>
     loadItem E s (ContainerCyl c) False g = (True, s', ContainerCyl c', g') \<Longrightarrow>
     childFails E s' (setSerializationCount c' (serializationCount c' - 1)) g' \<Longrightarrow>
     childFails E s c g"

code_pred childFails .

section \<open>An example world\<close>

definition ex_type :: "bool \<Rightarrow> bool \<Rightarrow> bool \<Rightarrow> ItemType" where
  "ex_type mv bed door =
     \<lparr>moveable = mv, isCarpet = False, isBed = bed, isDoor = door, m_transformOnUse = 0,
      savedToHouses = True\<rparr>"

definition ex_items :: "u16 \<Rightarrow> ItemType" where
  "ex_items i =
     (if i = 100 \<or> i = 200 \<or> i = 201 then ex_type True False False
      else if i = 300 then ex_type False False True
      else if i = 400 then ex_type False True False
      else ex_type False False False)"

definition ex_CreateItem :: "u16 \<Rightarrow> Item option" where
  "ex_CreateItem i =
     (if i = 100 \<or> i = 500 then Some (Item i [] ContainerCap 0 [])
      else if i = 200 \<or> i = 201 \<or> i = 600 then Some (Item i [] Plain 0 [])
      else if i = 300 then Some (Item i [] DoorCap 0 [])
      else if i = 400 \<or> i = 700 then Some (Item i [] BedCap 0 [])
      else None)"

definition ex_registry :: registry where
  "ex_registry = \<lparr>items = ex_items, CreateItem = ex_CreateItem\<rparr>"

definition ex_position :: Position where
  "ex_position = \<lparr>pos_x = 1, pos_y = 2, pos_z = 7\<rparr>"

definition ex_crowded_tile :: Tile where
  "ex_crowded_tile =
     \<lparr>getPosition = ex_position, getItemList = Some (replicate 65536 (Item 200 [] Plain 0 []))\<rparr>"

definition ex_sack :: Item where
  "ex_sack = Item 100 [] ContainerCap 0 [Item 200 [] Plain 0 [], Item 201 [(5, 9)] Plain 0 []]"

definition ex_tile :: Tile where
  "ex_tile = \<lparr>getPosition = ex_position, getItemList = Some [ex_sack]\<rparr>"

definition ex_empty_tile :: Tile where
  "ex_empty_tile = \<lparr>getPosition = ex_position, getItemList = Some []\<rparr>"

definition ex_house :: House where
  "ex_house =
     \<lparr>getId = 5, getOwner = 11, getPaidUntil = 0, getPayRentWarnings = 0,
      getTiles = [ex_empty_tile, ex_tile], accessLists = Map.empty\<rparr>"

definition ex_driver :: driver where
  "ex_driver = \<lparr>executeQueryOk = True, addRowOk = (\<lambda>row. True), executeOk = True\<rparr>"

definition ex_sack_bytes :: "byte list" where
  "ex_sack_bytes = [100, 0, 23, 2, 0, 0, 0, 201, 0, 5, 9, 0, 0, 0, 0, 200, 0, 0, 0]"

definition ex_game :: Game where
  "ex_game = \<lparr>bedSleepers = {77}, decaying = [], transferHouseItemsToPlayer = Map.empty\<rparr>"

definition ex_houses :: "u32 \<rightharpoonup> House" where
  "ex_houses = [5 \<mapsto> ex_house, 6 \<mapsto> ex_house\<lparr>getId := 6\<rparr>, 7 \<mapsto> ex_house\<lparr>getId := 7\<rparr>]"

definition ex_row :: "u32 \<Rightarrow> 32 word \<Rightarrow> HouseRow" where
  "ex_row i n = \<lparr>row_id = i, row_owner = 11, row_new_owner = n, row_paid = 0, row_warnings = 0\<rparr>"

definition ex_house_rows :: "HouseRow list" where
  "ex_house_rows = [ex_row 5 0, ex_row 6 42, ex_row 7 (- 1)]"

definition ex_calls :: "nat decay_call list" where
  "ex_calls = [StartDecay 10 1, StartDecay 20 2, StopDecay 1, StartDecay 30 2]"

definition ex_door :: Item where
  "ex_door = Item 300 [] DoorCap 0 []"

definition ex_fixture :: Item where
  "ex_fixture = Item 600 [] Plain 0 []"

definition ex_bare_tile :: Tile where
  "ex_bare_tile = \<lparr>getPosition = ex_position, getItemList = None\<rparr>"

definition ex_fixture_tile :: Tile where
  "ex_fixture_tile = \<lparr>getPosition = ex_position, getItemList = Some [ex_fixture]\<rparr>"

definition ex_bad_row :: "byte list" where
  "ex_bad_row = [1, 0, 2, 0, 7, 2, 0, 0, 0, 144, 1, 200, 0, 0, 0, 0, 0, 201, 0, 0]"

definition ex_other_position :: Position where
  "ex_other_position = \<lparr>pos_x = 3, pos_y = 2, pos_z = 7\<rparr>"

definition ex_other_tile :: Tile where
  "ex_other_tile = \<lparr>getPosition = ex_other_position, getItemList = Some []\<rparr>"

definition ex_map :: WorldMap where
  "ex_map = [ex_position \<mapsto> ex_empty_tile, ex_other_position \<mapsto> ex_other_tile]"

definition ex_good_row :: "byte list" where
  "ex_good_row = [3, 0, 2, 0, 7, 1, 0, 0, 0, 201, 0, 0]"

text \<open>
  A sack in a sack whose second child has a truncated attribute; a chest, a container
  that is not movable, the tile it stands on, and its record with a child whose attribute
  is truncated; and an item of a type that the factory does not create.
\<close>

definition ex_nested_bad :: "byte list" where
  "ex_nested_bad =
     [100, 0, 23, 1, 0, 0, 0, 100, 0, 23, 2, 0, 0, 0, 200, 0, 0, 201, 0, 5, 1]"

definition ex_chest :: Item where
  "ex_chest = Item 500 [] ContainerCap 0 []"

definition ex_chest_tile :: Tile where
  "ex_chest_tile = \<lparr>getPosition = ex_position, getItemList = Some [ex_chest]\<rparr>"

definition ex_chest_bad :: "byte list" where
  "ex_chest_bad = [244, 1, 23, 1, 0, 0, 0, 200, 0, 5, 1]"

definition ex_relic :: Item where
  "ex_relic = Item 900 [(5, 1)] Plain 0 []"

section \<open>Properties of the stream and of the encoding\<close>

lemma read_u16_write_u16: "read_u16 (write_u16 [] v @ r) = Some (v, r)"
proof -
  have "ucast (ucast v :: byte) OR push_bit 8 (ucast (ucast (drop_bit 8 v) :: byte)) = v"
    by (rule bit_word_eqI) (auto simp: bit_simps)
  then show ?thesis by (simp add: write_u16_def)
qed

lemma read_u32_write_u32: "read_u32 (write_u32 [] v @ r) = Some (v, r)"
proof -
  define w :: u32 where "w = ucast (ucast v :: byte) OR push_bit 8 (ucast (ucast (drop_bit 8 v) :: byte))
          OR push_bit 16 (ucast (ucast (drop_bit 16 v) :: byte))
          OR push_bit 24 (ucast (ucast (drop_bit 24 v) :: byte))"
  have "w = v"
  proof (rule bit_word_eqI)
    fix n assume n: "n < LENGTH(32)"
    consider "n < 8" | "8 \<le> n" "n < 16" | "16 \<le> n" "n < 24" | "24 \<le> n" by linarith
    then show "bit w n = bit v n"
      using n unfolding w_def by cases (auto simp: bit_simps)
  qed
  then show ?thesis by (simp add: write_u32_def w_def)
qed

lemma read_u8_write_u8: "read_u8 (write_u8 [] v @ r) = Some (v, r)"
  by (simp add: write_u8_def)

lemma write_u8_append: "write_u8 s v = s @ write_u8 [] v"
  by (simp add: write_u8_def)

lemma write_u16_append: "write_u16 s v = s @ write_u16 [] v"
  by (simp add: write_u16_def)

lemma write_u32_append: "write_u32 s v = s @ write_u32 [] v"
  by (simp add: write_u32_def)

lemma serializeAttr_append: "serializeAttr s as = s @ serializeAttr [] as"
proof (induction as arbitrary: s)
  case Nil
  show ?case by simp
next
  case (Cons a as)
  obtain k v where a: "a = (k, v)" by (cases a)
  have 1: "serializeAttr s (a # as) = write_u32 (write_u8 s k) v @ serializeAttr [] as"
    unfolding a serializeAttr.simps by (rule Cons.IH)
  have 2: "serializeAttr [] (a # as) = write_u32 (write_u8 [] k) v @ serializeAttr [] as"
    unfolding a serializeAttr.simps by (rule Cons.IH)
  show ?case unfolding 1 2 by (simp add: write_u8_def write_u32_def)
qed

lemma foldl_saveItem_append:
  assumes "\<And>x a. x \<in> set xs \<Longrightarrow> saveItem a x = a @ f x"
  shows "foldl saveItem s xs = s @ concat (map f xs)"
  using assms
proof (induction xs arbitrary: s)
  case Nil
  show ?case by simp
next
  case (Cons x xs)
  have "foldl saveItem s (x # xs) = foldl saveItem (saveItem s x) xs" by simp
  also have "\<dots> = saveItem s x @ concat (map f xs)"
    by (rule Cons.IH) (simp add: Cons.prems)
  also have "saveItem s x = s @ f x"
    by (rule Cons.prems) simp
  finally show ?case by simp
qed

lemma saveItem_append: "saveItem s item = s @ saveItem [] item"
proof (induction s item rule: saveItem.induct)
  case (1 stream item)
  show ?case
  proof (cases "getContainer item")
    case True
    have f: "foldl saveItem s (rev (itemlist item)) =
               s @ concat (map (saveItem []) (rev (itemlist item)))" for s
    proof (rule foldl_saveItem_append)
      fix x a assume x: "x \<in> set (rev (itemlist item))"
      show "saveItem a x = a @ saveItem [] x" by (rule 1 [OF refl refl True x])
    qed
    show ?thesis
      unfolding saveItem.simps [of stream item] saveItem.simps [of "[]" item] Let_def
      apply (simp only: True if_True f)
      apply (subst (1 2) serializeAttr_append)
      apply (simp add: write_u8_def write_u16_def write_u32_def)
      done
  next
    case False
    show ?thesis
      unfolding saveItem.simps [of stream item] saveItem.simps [of "[]" item] Let_def
      apply (simp only: False if_False)
      apply (subst (1 2) serializeAttr_append)
      apply (simp add: write_u8_def write_u16_def write_u32_def)
      done
  qed
qed

lemma foldl_saveItem: "foldl saveItem s xs = s @ concat (map (saveItem []) xs)"
  by (rule foldl_saveItem_append) (rule saveItem_append)

lemma saveItem_container:
  "getContainer item \<Longrightarrow>
   saveItem [] item =
     write_u16 [] (getID item) @ serializeAttr [] (attributes item) @
     write_u8 [] ATTR_CONTAINER_ITEMS @ write_u32 [] (of_nat (length (itemlist item))) @
     concat (map (saveItem []) (rev (itemlist item))) @ write_u8 [] 0"
  apply (subst saveItem.simps)
  apply (simp add: Let_def foldl_saveItem)
  apply (subst serializeAttr_append)
  apply (simp add: write_u8_def write_u16_def write_u32_def)
  done

lemma saveItem_plain:
  "\<not> getContainer item \<Longrightarrow>
   saveItem [] item =
     write_u16 [] (getID item) @ serializeAttr [] (attributes item) @ write_u8 [] 0"
  apply (subst saveItem.simps)
  apply (simp add: Let_def)
  apply (subst serializeAttr_append)
  apply (simp add: write_u8_def write_u16_def write_u32_def)
  done

lemma saveTile_collect_eq:
  "saveTile_collect E tileItems =
     (rev (filter (isSavedToHouses E) tileItems),
      of_nat (length (filter (isSavedToHouses E) tileItems)))"
proof -
  have "foldl (\<lambda>(its, count) item.
              if \<not> isSavedToHouses E item then (its, count) else (item # its, count + 1))
           (acc, c) xs = (rev (filter (isSavedToHouses E) xs) @ acc,
      c + of_nat (length (filter (isSavedToHouses E) xs)))" for acc and c :: u16 and xs
    by (induction xs arbitrary: acc c) (auto simp: algebra_simps)
  from this [of "[]" 0 tileItems] show ?thesis by (simp add: saveTile_collect_def)
qed

lemma saveTile_empty: "qualifyingItems E tile = [] \<Longrightarrow> saveTile E stream tile = stream"
  by (auto simp: saveTile_def qualifyingItems_def saveTile_collect_eq split: option.splits)

lemma saveTile_nonempty:
  "qualifyingItems E tile \<noteq> [] \<Longrightarrow>
   saveTile E stream tile =
     stream @ tileHeader (getPosition tile)
                (ucast (of_nat (length (qualifyingItems E tile)) :: u16)) @
     concat (map (saveItem []) (rev (qualifyingItems E tile)))"
  by (auto simp: saveTile_def qualifyingItems_def saveTile_collect_eq foldl_saveItem tileHeader_def
        Let_def write_u8_def write_u16_def write_u32_def split: option.splits)

lemma storedItemCount_tileHeader: "storedItemCount (tileHeader p n @ r) = Some n"
proof -
  have "tileHeader p n @ r = write_u16 [] (pos_x p) @ write_u16 [] (pos_y p) @ write_u8 [] (pos_z p)
     @ write_u32 [] n @ r"
    by (simp add: tileHeader_def write_u8_def write_u16_def write_u32_def)
  then show ?thesis
    by (simp add: storedItemCount_def read_u16_write_u16 read_u8_write_u8 read_u32_write_u32)
qed

lemma unat_count16: "unat (ucast (of_nat n :: u16) :: u32) = n mod 65536"
proof -
  have "unat (ucast (of_nat n :: u16) :: u32) = take_bit 32 (unat (of_nat n :: u16))"
    by (simp add: unsigned_ucast_eq)
  also have "\<dots> = unat (of_nat n :: u16)"
    by (rule take_bit_nat_eq_self) (rule order_less_trans [OF unsigned_less], simp)
  also have "\<dots> = n mod 65536" by (simp add: unat_of_nat)
  finally show ?thesis .
qed

lemma unat_of_nat32: "n < 4294967296 \<Longrightarrow> unat (of_nat n :: u32) = n"
  by (simp add: unat_of_nat)


lemma saveHouseTiles_rows:
  "saveHouseTiles D E hid tiles ([], rows) = Some (stream', rows') \<Longrightarrow>
   stream' = [] \<and>
   rows' = rows @ map (\<lambda>tile. (hid, saveTile E [] tile))
                     (filter (\<lambda>tile. qualifyingItems E tile \<noteq> []) tiles)"
proof (induction tiles arbitrary: rows)
  case Nil
  then show ?case by simp
next
  case (Cons tile tiles)
  show ?case
  proof (cases "qualifyingItems E tile = []")
    case True
    then have "saveTile E [] tile = []" by (rule saveTile_empty)
    with Cons.prems have "saveHouseTiles D E hid tiles ([], rows) = Some (stream', rows')"
      by simp
    from Cons.IH [OF this] True show ?thesis by simp
  next
    case False
    then have ne: "saveTile E [] tile \<noteq> []"
      by (simp add: saveTile_nonempty tileHeader_def write_u32_def)
    with Cons.prems
    have "saveHouseTiles D E hid tiles ([], rows @ [(hid, saveTile E [] tile)]) = Some (stream', rows')"
      by (simp add: Let_def split: if_splits)
    from Cons.IH [OF this] False show ?thesis by simp
  qed
qed

lemma saveHouses_rows:
  "saveHouses D E houses ([], rows) = Some (stream', rows') \<Longrightarrow>
   stream' = [] \<and> rows' = rows @ expectedRows E houses"
proof (induction houses arbitrary: rows)
  case Nil
  then show ?case by (simp add: expectedRows_def)
next
  case (Cons house houses)
  from Cons.prems obtain st1 where
    1: "saveHouseTiles D E (getId house) (getTiles house) ([], rows) = Some st1" and
    2: "saveHouses D E houses st1 = Some (stream', rows')"
    by (auto split: option.splits)
  obtain s1 r1 where st1: "st1 = (s1, r1)" by (cases st1)
  from saveHouseTiles_rows [OF 1 [unfolded st1]]
  have s1: "s1 = []" and r1: "r1 = rows @ map (\<lambda>tile. (getId house, saveTile E [] tile))
                     (filter (\<lambda>tile. qualifyingItems E tile \<noteq> []) (getTiles house))"
    by simp_all
  from Cons.IH [OF 2 [unfolded st1 s1]] r1 show ?case
    by (simp add: expectedRows_def)
qed

lemma qualifying_crowded:
  "qualifyingItems ex_registry ex_crowded_tile = replicate 65536 (Item 200 [] Plain 0 [])"
  by (simp add: qualifyingItems_def ex_crowded_tile_def isSavedToHouses_def ex_registry_def
        ex_items_def ex_type_def)

lemma ex_sack_saved: "saveItem [] ex_sack = ex_sack_bytes"
  by (simp add: ex_sack_def ex_sack_bytes_def saveItem.simps getContainer_def Let_def
        write_u8_def write_u16_def write_u32_def ATTR_CONTAINER_ITEMS_def)

lemma ex_tile_qualifying: "qualifyingItems ex_registry ex_tile = [ex_sack]"
  by (simp add: qualifyingItems_def ex_tile_def isSavedToHouses_def ex_registry_def ex_items_def
        ex_type_def ex_sack_def)

lemma ex_empty_tile_qualifying: "qualifyingItems ex_registry ex_empty_tile = []"
  by (simp add: qualifyingItems_def ex_empty_tile_def)

section \<open>Properties of the decoding, the house metadata and the decay scheduler\<close>

lemma unat_ucast_u16: "unat (ucast (w :: u16) :: u32) = unat w"
proof -
  have "unat (ucast w :: u32) = take_bit 32 (unat w)"
    by (simp add: unsigned_ucast_eq)
  also have "\<dots> = unat w"
    by (rule take_bit_nat_eq_self) (rule order_less_trans [OF unsigned_less], simp)
  finally show ?thesis .
qed

lemma below_NEW_BEDS_START_ID: "ucast (itemId :: u16) < NEW_BEDS_START_ID \<longleftrightarrow> unat itemId < 30000"
  by (simp add: NEW_BEDS_START_ID_def word_less_nat_alt unat_ucast_u16)

lemma loadHouseInfoRow_other:
  "row_id r \<noteq> i \<Longrightarrow>
   fst (loadHouseInfoRow f r st) i = fst st i \<and>
   transferHouseItemsToPlayer (snd (loadHouseInfoRow f r st)) i =
     transferHouseItemsToPlayer (snd st) i"
  by (auto simp: loadHouseInfoRow_def Let_def setTransferPlayerHouseItems_def split: option.splits)

lemma loadHouseInfoRow_own:
  assumes "fst st (row_id r) = Some house"
  shows "\<exists>house'. fst (loadHouseInfoRow f r st) (row_id r) = Some house' \<and>
           getOwner house' = ownerAfterLoad f r \<and>
           transferHouseItemsToPlayer (snd (loadHouseInfoRow f r st)) (row_id r) =
             (if f \<and> 0 \<le> sint (row_new_owner r) then Some (row_owner r)
              else transferHouseItemsToPlayer (snd st) (row_id r))"
  using assms
  by (auto simp: loadHouseInfoRow_def Let_def setTransferPlayerHouseItems_def setOwner_def
        ownerAfterLoad_def)

lemma foldl_loadHouseInfoRow_other:
  "i \<notin> row_id ` set rows \<Longrightarrow>
   fst (foldl (\<lambda>st row. loadHouseInfoRow f row st) st rows) i = fst st i \<and>
   transferHouseItemsToPlayer (snd (foldl (\<lambda>st row. loadHouseInfoRow f row st) st rows)) i =
     transferHouseItemsToPlayer (snd st) i"
proof (induction rows arbitrary: st)
  case Nil
  show ?case by simp
next
  case (Cons r rows)
  from Cons.prems have 1: "row_id r \<noteq> i" and 2: "i \<notin> row_id ` set rows" by auto
  show ?case
    using Cons.IH [OF 2, of "loadHouseInfoRow f r st"] loadHouseInfoRow_other [OF 1, of f st]
    by simp
qed

lemma loadHouseLists_owner:
  "map_option getOwner (loadHouseLists listRows houses i) = map_option getOwner (houses i)"
proof (induction listRows arbitrary: houses)
  case Nil
  show ?case by simp
next
  case (Cons a listRows)
  obtain hid lid ltext where a: "a = (hid, lid, ltext)" by (cases a)
  show ?case
    unfolding a by (simp add: Cons.IH split: option.splits)
qed

lemma decay_inv_no_decay: "decay_inv no_decay"
  by (simp add: decay_inv_def no_decay_def)

lemma count_list_remove1:
  "count_list (remove1 x xs) y = (if x = y then count_list xs y - 1 else count_list xs y)"
  by (induction xs) auto

lemma in_set_count_list: "x \<in> set xs \<longleftrightarrow> 0 < count_list xs x"
  by (induction xs) auto

lemma decay_inv_stopDecay:
  assumes "decay_inv d"
  shows "decay_inv (stopDecay x d)"
proof (cases "scheduledAt d x")
  case None
  with assms show ?thesis by (simp add: stopDecay_def)
next
  case (Some t)
  have I: "\<And>item tick. (case decayMap d tick of None \<Rightarrow> 0 | Some bucket \<Rightarrow> count_list bucket item) =
                   (if scheduledAt d item = Some tick then 1 else (0::nat))"
    using assms by (simp add: decay_inv_def)
  show ?thesis
    unfolding decay_inv_def
  proof (intro allI)
    fix item tick
    show "(case decayMap (stopDecay x d) tick of None \<Rightarrow> 0 | Some bucket \<Rightarrow> count_list bucket item) =
          (if scheduledAt (stopDecay x d) item = Some tick then 1 else (0::nat))"
    proof (cases "decayMap d t")
      case None
      with I [where tick = t and item = x] Some show ?thesis by simp
    next
      case b: (Some bucket)
      show ?thesis
        using I [where tick = tick and item = item] I [where tick = t and item = x] Some b
        by (auto simp: stopDecay_def count_list_remove1 split: option.splits if_splits)
    qed
  qed
qed

lemma scheduledAt_stopDecay: "scheduledAt (stopDecay x d) x = None"
  by (simp add: stopDecay_def split: option.splits)

lemma decay_inv_startDecay:
  assumes "decay_inv d"
  shows "decay_inv (startDecay duration now x d)"
proof -
  let ?d1 = "stopDecay x d"
  let ?t = "now + duration x"
  let ?bucket = "case decayMap ?d1 ?t of None \<Rightarrow> [] | Some b \<Rightarrow> b"
  let ?d2 = "startDecay duration now x d"
  have I: "\<And>item tick. (case decayMap ?d1 tick of None \<Rightarrow> 0 | Some bucket \<Rightarrow> count_list bucket item) =
                   (if scheduledAt ?d1 item = Some tick then 1 else (0::nat))"
    using decay_inv_stopDecay [OF assms, of x] by (simp add: decay_inv_def)
  have n: "scheduledAt ?d1 x = None" by (rule scheduledAt_stopDecay)
  have m: "decayMap ?d2 tick = (if tick = ?t then Some (?bucket @ [x]) else decayMap ?d1 tick)"
    for tick by (simp add: startDecay_def Let_def)
  have s: "scheduledAt ?d2 item = (if item = x then Some ?t else scheduledAt ?d1 item)"
    for item by (simp add: startDecay_def Let_def)
  have c: "count_list ?bucket item = (if scheduledAt ?d1 item = Some ?t then 1 else 0)" for item
  proof (cases "decayMap ?d1 ?t")
    case None
    with I [where tick = ?t and item = item] show ?thesis by simp
  next
    case (Some b)
    with I [where tick = ?t and item = item] show ?thesis by simp
  qed
  show ?thesis
    unfolding decay_inv_def
  proof (intro allI)
    fix item tick
    show "(case decayMap ?d2 tick of None \<Rightarrow> 0 | Some bucket \<Rightarrow> count_list bucket item) =
          (if scheduledAt ?d2 item = Some tick then 1 else (0::nat))"
    proof (cases "tick = ?t")
      case True
      show ?thesis
        unfolding m s using True n by (simp add: c)
    next
      case False
      show ?thesis
        unfolding m s using False I [where tick = tick and item = item] n by auto
    qed
  qed
qed

lemma decay_inv_foldl:
  "decay_inv d \<Longrightarrow> decay_inv (foldl (decay_step duration) d calls)"
proof (induction calls arbitrary: d)
  case Nil
  then show ?case by simp
next
  case (Cons c cs)
  have "decay_inv (decay_step duration d c)"
    using Cons.prems by (cases c) (simp_all add: decay_inv_startDecay decay_inv_stopDecay)
  then show ?case using Cons.IH by simp
qed

lemma decay_inv_run: "decay_inv (decay_run duration calls)"
  unfolding decay_run_def by (rule decay_inv_foldl) (rule decay_inv_no_decay)

lemma bucketsOf_inv:
  assumes "decay_inv d"
  shows "bucketsOf d item = (case scheduledAt d item of None \<Rightarrow> {} | Some tick \<Rightarrow> {tick})"
proof -
  have I: "\<And>tick. (case decayMap d tick of None \<Rightarrow> 0 | Some bucket \<Rightarrow> count_list bucket item) =
                   (if scheduledAt d item = Some tick then 1 else (0::nat))"
    using assms by (simp add: decay_inv_def)
  have "tick \<in> bucketsOf d item \<longleftrightarrow> scheduledAt d item = Some tick" for tick
    using I [of tick]
    by (auto simp: bucketsOf_def in_set_count_list split: option.splits if_splits)
  then show ?thesis by (auto split: option.splits)
qed

lemma scheduledAt_startDecay:
  "scheduledAt (startDecay duration now x d) x = Some (now + duration x)"
  by (simp add: startDecay_def Let_def)

lemma ex_calls_run:
  "decayMap (decay_run (\<lambda>i. 5) ex_calls) = [15 \<mapsto> [], 25 \<mapsto> [], 35 \<mapsto> [2]]"
  by (simp add: decay_run_def ex_calls_def no_decay_def startDecay_def stopDecay_def Let_def fun_upd_twist)

section \<open>Properties of loadItem and loadContainer\<close>

text \<open>The equations of \<open>loadItem\<close>, branch by branch.\<close>

lemma loadItem_no_id: "read_u16 s = None \<Longrightarrow> loadItem E s parent h g = (False, s, parent, g)"
  by (simp add: loadItem.simps)

lemma loadItem_legacy:
  "read_u16 s = Some (itemId, s1) \<Longrightarrow> legacyBed E itemId h \<Longrightarrow>
   loadItem E s parent h g = (False, s1, parent, g)"
  by (simp add: loadItem.simps legacyBed_def Let_def)

lemma loadItem_fresh:
  assumes "read_u16 s = Some (itemId, s1)" and "\<not> legacyBed E itemId h"
    and "createsNewItem E itemId parent"
  shows "loadItem E s parent h g =
     (case CreateItem E itemId of
        None \<Rightarrow> (True, s1, parent, g)
      | Some item \<Rightarrow>
          (case unserializeAttr item s1 of
             (True, item1, s2) \<Rightarrow>
               if getContainer item1 then
                 (case loadContainer E s2 item1 g of
                    (False, s3, item2, g1) \<Rightarrow> (False, s3, parent, g1)
                  | (True, s3, item2, g1) \<Rightarrow>
                      (True, s3, internalAddThing parent item2, startDecaying item2 g1))
               else (True, s2, internalAddThing parent item1, startDecaying item1 g)
           | (False, item1, s2) \<Rightarrow> (False, s2, parent, g)))"
proof -
  have a: "\<not> (h \<and> isBed (items E itemId) \<and> ucast itemId < NEW_BEDS_START_ID)"
    using assms(2) by (simp add: legacyBed_def)
  have b: "moveable (items E itemId) \<or> getTile parent = None \<or> isCarpet (items E itemId) \<or>
      isBed (items E itemId)"
    using assms(3) by (simp add: createsNewItem_def)
  show ?thesis
    apply (subst loadItem.simps)
    apply (simp only: assms(1) option.case prod.case Let_def a b if_True if_False)
    done
qed

lemma loadItem_stationary:
  assumes "read_u16 s = Some (itemId, s1)" and "\<not> legacyBed E itemId h"
    and "\<not> createsNewItem E itemId (TileCyl tile)"
  shows "loadItem E s (TileCyl tile) h g =
     (case stationaryMatch E itemId tile of
        Some (i, item) \<Rightarrow>
          (case unserializeAttr item s1 of
             (True, item1, s2) \<Rightarrow>
               if getContainer item1 then
                 (case loadContainer E s2 item1 g of
                    (False, s3, item2, g1) \<Rightarrow> (False, s3, TileCyl (replaceItem tile i item2), g1)
                  | (True, s3, item2, g1) \<Rightarrow>
                      (True, s3, TileCyl (replaceItem tile i (transformItem item2 itemId)), g1))
               else (True, s2, TileCyl (replaceItem tile i (transformItem item1 itemId)), g)
           | (False, item1, s2) \<Rightarrow> (True, s2, TileCyl (replaceItem tile i item1), g))
      | None \<Rightarrow>
          (case CreateItem E itemId of
             None \<Rightarrow> (True, s1, TileCyl tile, g)
           | Some dummy \<Rightarrow>
               (case unserializeAttr dummy s1 of
                  (ok, dummy1, s2) \<Rightarrow>
                    if getContainer dummy1 then
                      (case loadContainer E s2 dummy1 g of
                         (False, s3, dummy2, g1) \<Rightarrow> (False, s3, TileCyl tile, g1)
                       | (True, s3, dummy2, g1) \<Rightarrow> (True, s3, TileCyl tile, g1))
                    else if getBed dummy1 then
                      (if getSleeper dummy1 \<noteq> 0
                       then (True, s2, TileCyl tile, removeBedSleeper g (getSleeper dummy1))
                       else (True, s2, TileCyl tile, g))
                    else (True, s2, TileCyl tile, g))))"
proof -
  have a: "\<not> (h \<and> isBed (items E itemId) \<and> ucast itemId < NEW_BEDS_START_ID)"
    using assms(2) by (simp add: legacyBed_def)
  have b: "\<not> moveable (items E itemId)" "\<not> isCarpet (items E itemId)" "\<not> isBed (items E itemId)"
    using assms(3) by (simp_all add: createsNewItem_def)
  show ?thesis
    apply (subst loadItem.simps)
    apply (simp only: assms(1) option.case prod.case Let_def a if_False)
    apply (simp only: b getTile.simps option.sel stationaryMatch_def simp_thms if_False)
    apply (simp add: Let_def cong: option.case_cong prod.case_cong if_cong)
    done
qed

lemma not_createsNewItem_tile:
  "\<not> createsNewItem E itemId parent \<Longrightarrow> \<exists>tile. parent = TileCyl tile"
  by (cases parent) (simp_all add: createsNewItem_def)

lemma createsNewItem_container: "createsNewItem E itemId (ContainerCyl c)"
  by (simp add: createsNewItem_def)

lemma not_legacy: "\<not> legacyBed E itemId False"
  by (simp add: legacyBed_def)

text \<open>
  \<open>loadItem\<close> answers a container for a container and a tile for a tile, so the
  alternatives that \<open>loadContainer\<close> and the loop of \<open>loadHouseItems\<close> name for a parent
  of the other kind are never taken.
\<close>

lemma loadItem_container_parent:
  "\<exists>c'. fst (snd (snd (loadItem E s (ContainerCyl c) h g))) = ContainerCyl c'"
proof (cases "read_u16 s")
  case None
  then show ?thesis by (simp add: loadItem_no_id)
next
  case (Some a)
  obtain itemId s1 where a: "a = (itemId, s1)" by (cases a)
  note rd = Some [unfolded a]
  show ?thesis
  proof (cases "legacyBed E itemId h")
    case True
    then show ?thesis by (simp add: loadItem_legacy [OF rd])
  next
    case False
    show ?thesis
      unfolding loadItem_fresh [OF rd False createsNewItem_container]
      by (auto split: option.splits prod.splits bool.splits)
  qed
qed

lemma loadItem_tile_parent:
  "\<exists>t'. fst (snd (snd (loadItem E s (TileCyl t) h g))) = TileCyl t'"
proof (cases "read_u16 s")
  case None
  then show ?thesis by (simp add: loadItem_no_id)
next
  case (Some a)
  obtain itemId s1 where a: "a = (itemId, s1)" by (cases a)
  note rd = Some [unfolded a]
  show ?thesis
  proof (cases "legacyBed E itemId h")
    case True
    then show ?thesis by (simp add: loadItem_legacy [OF rd])
  next
    case False
    show ?thesis
    proof (cases "createsNewItem E itemId (TileCyl t)")
      case True
      show ?thesis
        unfolding loadItem_fresh [OF rd False True]
        by (auto split: option.splits prod.splits bool.splits)
    next
      case nc: False
      show ?thesis
        unfolding loadItem_stationary [OF rd False nc]
        by (auto split: option.splits prod.splits bool.splits)
    qed
  qed
qed

text \<open>Reading back what \<open>serializeAttr\<close> and \<open>saveItem\<close> wrote.\<close>

lemma unserializeAttr_end: "unserializeAttr item (write_u8 [] 0 @ rest) = (True, item, rest)"
  by (simp add: unserializeAttr.simps write_u8_def)

lemma ATTR_CONTAINER_ITEMS_nonzero: "ATTR_CONTAINER_ITEMS \<noteq> 0"
  by (simp add: ATTR_CONTAINER_ITEMS_def)

lemma unserializeAttr_container:
  "getContainer item \<Longrightarrow>
   unserializeAttr item (write_u8 [] ATTR_CONTAINER_ITEMS @ write_u32 [] n @ rest) =
     (True, setSerializationCount item n, rest)"
proof -
  assume c: "getContainer item"
  have r: "read_u8 (write_u8 [] ATTR_CONTAINER_ITEMS @ write_u32 [] n @ rest) =
             Some (ATTR_CONTAINER_ITEMS, write_u32 [] n @ rest)"
    by (rule read_u8_write_u8)
  show ?thesis
    by (subst unserializeAttr.simps)
       (simp add: r c read_u32_write_u32 ATTR_CONTAINER_ITEMS_nonzero)
qed

lemma unserializeAttr_serialized:
  "list_all validAttribute as \<Longrightarrow>
   unserializeAttr item (serializeAttr [] as @ tail) =
     unserializeAttr
       (Item (getID item) (attributes item @ as) (capability item) (serializationCount item)
             (itemlist item)) tail"
proof (induction as arbitrary: item)
  case Nil
  show ?case by simp
next
  case (Cons a as)
  obtain k v where a: "a = (k, v)" by (cases a)
  from Cons.prems have va: "validAttribute a" and rest: "list_all validAttribute as"
    by simp_all
  from va have k: "k \<noteq> 0" "k \<noteq> ATTR_CONTAINER_ITEMS"
    by (simp_all add: a validAttribute_def)
  have ser: "serializeAttr [] (a # as) @ tail =
               write_u8 [] k @ write_u32 [] v @ serializeAttr [] as @ tail"
    unfolding a serializeAttr.simps
    by (subst serializeAttr_append) (simp add: write_u8_def write_u32_def)
  have 1: "unserializeAttr item (serializeAttr [] (a # as) @ tail) =
        unserializeAttr (setAttribute item k v) (serializeAttr [] as @ tail)"
    unfolding ser
    by (subst unserializeAttr.simps) (simp add: read_u8_write_u8 read_u32_write_u32 k)
  show ?case
    unfolding 1 Cons.IH [OF rest] by (simp add: setAttribute_def a)
qed

lemma decayingAfter_Nil: "decayingAfter g [] = g"
  by (simp add: decayingAfter_def)

lemma decayingAfter_append: "decayingAfter (decayingAfter g xs) ys = decayingAfter g (xs @ ys)"
  by (simp add: decayingAfter_def)

lemma startDecaying_decayingAfter: "startDecaying item g = decayingAfter g [getID item]"
  by (simp add: startDecaying_def decayingAfter_def)

lemma word32_of_nat_pos: "0 < n \<Longrightarrow> n < 4294967296 \<Longrightarrow> 0 < (of_nat n :: u32)"
  by (simp add: word_less_nat_alt unat_of_nat)

lemma loadContainer_children:
  assumes "\<And>x. x \<in> set xs \<Longrightarrow> loadsBack E x"
    and "serializationCount c = of_nat (length xs)"
    and "length xs < 4294967296"
  shows "loadContainer E (concat (map (saveItem []) xs) @ write_u8 [] 0 @ rest) c g =
     (True, rest,
      Item (getID c) (attributes c) (capability c) 0 (rev (map clearCount xs) @ itemlist c),
      decayingAfter g (concat (map startedDecaying xs)))"
  using assms
proof (induction xs arbitrary: c g)
  case Nil
  then have z: "serializationCount c = 0" by simp
  have c: "Item (getID c) (attributes c) (capability c) 0 (itemlist c) = c"
    using z by (cases c) simp
  show ?case
    by (subst loadContainer.simps) (simp add: z read_u8_write_u8 c decayingAfter_Nil)
next
  case (Cons x xs)
  let ?tail = "concat (map (saveItem []) xs) @ write_u8 [] 0 @ rest"
  let ?c1 = "Item (getID c) (attributes c) (capability c) (serializationCount c)
               (clearCount x # itemlist c)"
  let ?g1 = "decayingAfter g (startedDecaying x)"
  have pos: "0 < serializationCount c"
    using Cons.prems(2,3) by (simp add: word32_of_nat_pos del: of_nat_Suc)
  have "loadsBack E x" using Cons.prems(1) by simp
  then have li: "loadItem E (saveItem [] x @ ?tail) (ContainerCyl c) False g =
      (True, ?tail, ContainerCyl ?c1, ?g1)"
    unfolding loadsBack_def using not_legacy createsNewItem_container by simp
  have dec: "serializationCount ?c1 - 1 = of_nat (length xs)"
    using Cons.prems(2) by simp
  let ?c2 = "setSerializationCount ?c1 (serializationCount ?c1 - 1)"
  have ih: "loadContainer E ?tail ?c2 ?g1 =
     (True, rest,
      Item (getID ?c2) (attributes ?c2) (capability ?c2) 0 (rev (map clearCount xs) @ itemlist ?c2),
      decayingAfter ?g1 (concat (map startedDecaying xs)))"
  proof (rule Cons.IH)
    show "\<And>y. y \<in> set xs \<Longrightarrow> loadsBack E y" using Cons.prems(1) by simp
    show "serializationCount ?c2 = of_nat (length xs)"
      using dec by (simp add: setSerializationCount_def)
    show "length xs < 4294967296" using Cons.prems(3) by simp
  qed
  have str: "concat (map (saveItem []) (x # xs)) @ write_u8 [] 0 @ rest = saveItem [] x @ ?tail"
    by simp
  show ?case
    unfolding str
    apply (subst loadContainer.simps)
    apply (simp only: pos if_True li prod.case bool.case Cylinder.case Let_def ih)
    apply (simp add: setSerializationCount_def decayingAfter_append)
    done
qed

lemma loadsBack_item: "wfItem E item \<Longrightarrow> loadsBack E item"
proof (induction item)
  case (Item i as cap n cs)
  from Item.prems have cr: "CreateItem E i = Some (Item i [] cap 0 [])"
    and va: "list_all validAttribute as"
    and nc: "cap \<noteq> ContainerCap \<Longrightarrow> cs = []"
    and len: "length cs < 4294967296"
    and wf: "\<And>x. x \<in> set cs \<Longrightarrow> wfItem E x"
    by (simp_all add: list_all_iff)
  have ih: "\<And>x. x \<in> set (rev cs) \<Longrightarrow> loadsBack E x"
    using Item.IH wf by simp
  show ?case
    unfolding loadsBack_def
  proof (intro allI impI)
    fix rest parent h g
    assume nl: "\<not> legacyBed E (getID (Item i as cap n cs)) h"
      and cn: "createsNewItem E (getID (Item i as cap n cs)) parent"
    from nl have nl': "\<not> legacyBed E i h" by simp
    from cn have cn': "createsNewItem E i parent" by simp
    show "loadItem E (saveItem [] (Item i as cap n cs) @ rest) parent h g =
          (True, rest, internalAddThing parent (clearCount (Item i as cap n cs)),
           decayingAfter g (startedDecaying (Item i as cap n cs)))"
    proof (cases "cap = ContainerCap")
      case False
      then have cs: "cs = []" by (rule nc)
      have ngc: "\<not> getContainer (Item i as cap n cs)" using False by (simp add: getContainer_def)
      have sv: "saveItem [] (Item i as cap n cs) @ rest =
                  write_u16 [] i @ serializeAttr [] as @ write_u8 [] 0 @ rest"
        by (simp add: saveItem_plain [OF ngc])
      have rd: "read_u16 (saveItem [] (Item i as cap n cs) @ rest) =
                  Some (i, serializeAttr [] as @ write_u8 [] 0 @ rest)"
        unfolding sv by (rule read_u16_write_u16)
      have un: "unserializeAttr (Item i [] cap 0 []) (serializeAttr [] as @ write_u8 [] 0 @ rest) =
                  (True, Item i as cap 0 [], rest)"
        by (simp add: unserializeAttr_serialized [OF va] unserializeAttr_end)
      have ngc1: "\<not> getContainer (Item i as cap 0 [])"
        using False by (simp add: getContainer_def)
      show ?thesis
        unfolding loadItem_fresh [OF rd nl' cn']
        by (simp add: cr un ngc1 cs startDecaying_decayingAfter)
    next
      case True
      have gc: "getContainer (Item i as cap n cs)" using True by (simp add: getContainer_def)
      let ?kids = "concat (map (saveItem []) (rev cs)) @ write_u8 [] 0 @ rest"
      have sv: "saveItem [] (Item i as cap n cs) @ rest =
                  write_u16 [] i @ serializeAttr [] as @ write_u8 [] ATTR_CONTAINER_ITEMS @
                  write_u32 [] (of_nat (length cs)) @ ?kids"
        by (simp add: saveItem_container [OF gc])
      have rd: "read_u16 (saveItem [] (Item i as cap n cs) @ rest) =
                  Some (i, serializeAttr [] as @ write_u8 [] ATTR_CONTAINER_ITEMS @
                  write_u32 [] (of_nat (length cs)) @ ?kids)"
        unfolding sv by (rule read_u16_write_u16)
      let ?item1 = "Item i as cap (of_nat (length cs)) []"
      have un: "unserializeAttr (Item i [] cap 0 [])
                  (serializeAttr [] as @ write_u8 [] ATTR_CONTAINER_ITEMS @
                   write_u32 [] (of_nat (length cs)) @ ?kids) = (True, ?item1, ?kids)"
        using True
        by (simp add: unserializeAttr_serialized [OF va] unserializeAttr_container getContainer_def
              setSerializationCount_def)
      have lc: "loadContainer E ?kids ?item1 g =
         (True, rest,
          Item (getID ?item1) (attributes ?item1) (capability ?item1) 0
               (rev (map clearCount (rev cs)) @ itemlist ?item1),
          decayingAfter g (concat (map startedDecaying (rev cs))))"
        by (rule loadContainer_children [OF ih]) (simp_all add: len)
      have gc1: "getContainer ?item1"
        using True by (simp add: getContainer_def)
      show ?thesis
        unfolding loadItem_fresh [OF rd nl' cn']
        by (simp add: cr un lc gc1 rev_map startDecaying_decayingAfter decayingAfter_append)
    qed
  qed
qed

lemma cylinderItems_internalAddThing:
  "cylinderItems (internalAddThing parent item) = item # cylinderItems parent"
  by (cases parent) (simp_all add: cylinderItems_def split: option.splits)

lemma length_cylinderItems_replaceItem:
  "length (cylinderItems (TileCyl (replaceItem tile i item))) = length (cylinderItems (TileCyl tile))"
  by (simp add: cylinderItems_def replaceItem_def split: option.splits)

lemma clearCount_sel:
  "getID (clearCount item) = getID item"
  "attributes (clearCount item) = attributes item"
  "capability (clearCount item) = capability item"
  "itemlist (clearCount item) = map clearCount (itemlist item)"
  by (cases item, simp)+

text \<open>
  Both functions are total, a successful \<open>loadItem\<close> shortens the stream, and decoding
  the children of a container never touches the bed-sleeper bookkeeping.
\<close>

lemma loadItem_loadContainer_total: "loadItem_loadContainer_dom x"
proof -
  have "All loadItem_loadContainer_dom"
    apply (relation "measure (\<lambda>x. case x of Inl (E, s, p, h, g) \<Rightarrow> 2 * length s
                                         | Inr (E, s, c, g) \<Rightarrow> 2 * length s + 1)")
         apply (auto dest!: read_u16_length dest: unserializeAttr_length [OF sym])[5]
    subgoal premises p for E propStream container g ok y s1
    proof -
      have "loadItem E propStream (ContainerCyl container) False g = (True, s1, snd y)"
        using p(2-5) by (cases y) auto
      with loadItem_loadContainer_length(1) [OF p(7)] show ?thesis by simp
    qed
    done
  then show ?thesis ..
qed

lemma loadItem_shorter:
  "loadItem E s p h g = (True, s', p', g') \<Longrightarrow> length s' < length s"
  using loadItem_loadContainer_length(1) [OF loadItem_loadContainer_total, of E s p h g] by simp

lemma bedSleepers_startDecaying: "bedSleepers (startDecaying item g) = bedSleepers g"
  by (simp add: startDecaying_def)

lemma loadContainer_bedSleepers:
  "bedSleepers (snd (snd (snd (loadContainer E s c g)))) = bedSleepers g"
proof (induction "length s" arbitrary: s c g rule: less_induct)
  case less
  note IH = less.hyps
  have item: "bedSleepers (snd (snd (snd (loadItem E s (ContainerCyl c) False g)))) = bedSleepers g"
  proof (cases "read_u16 s")
    case None
    then show ?thesis by (simp add: loadItem_no_id)
  next
    case (Some a)
    obtain itemId s1 where a: "a = (itemId, s1)" by (cases a)
    note rd = Some [unfolded a]
    have l1: "length s = length s1 + 2" using rd by (rule read_u16_length)
    note eq = loadItem_fresh [OF rd not_legacy createsNewItem_container, of E c g]
    show ?thesis
    proof (cases "CreateItem E itemId")
      case None
      then show ?thesis by (simp add: eq)
    next
      case (Some item)
      obtain ok item1 s2 where u: "unserializeAttr item s1 = (ok, item1, s2)"
        by (cases "unserializeAttr item s1") auto
      have l2: "length s2 \<le> length s1" using u by (rule unserializeAttr_length)
      have "length s2 < length s" using l1 l2 by simp
      from IH [OF this, of item1 g]
      have c: "bedSleepers (snd (snd (snd (loadContainer E s2 item1 g)))) = bedSleepers g" .
      obtain okc s3 item2 g1 where lc: "loadContainer E s2 item1 g = (okc, s3, item2, g1)"
        by (cases "loadContainer E s2 item1 g") auto
      from c lc have g1: "bedSleepers g1 = bedSleepers g" by simp
      show ?thesis
        by (cases ok; cases okc)
           (simp_all add: eq Some u lc g1 bedSleepers_startDecaying)
    qed
  qed
  show ?case
  proof (cases "0 < serializationCount c")
    case False
    then show ?thesis
      by (simp add: loadContainer.simps [of E s c g] split: option.splits)
  next
    case True
    obtain ok s1 p1 g1 where li: "loadItem E s (ContainerCyl c) False g = (ok, s1, p1, g1)"
      by (cases "loadItem E s (ContainerCyl c) False g") auto
    from item li have g1: "bedSleepers g1 = bedSleepers g" by simp
    show ?thesis
    proof (cases ok)
      case False
      then show ?thesis using True li g1 by (simp add: loadContainer.simps [of E s c g])
    next
      case ok: True
      from li ok have "length s1 < length s" by (simp add: loadItem_shorter)
      from IH [OF this] g1 show ?thesis
        using True li ok by (simp add: loadContainer.simps [of E s c g] Let_def)
    qed
  qed
qed

text \<open>The rows of a load are taken one after the other, each at its own position.\<close>

lemma loadHouseItems_append:
  "loadHouseItems E (rows1 @ rows2) st = loadHouseItems E rows2 (loadHouseItems E rows1 st)"
  by (induction rows1 arbitrary: st) simp_all

lemma loadHouseRow_elsewhere:
  "rowPosition attr \<noteq> Some p \<Longrightarrow> fst (loadHouseRow E attr st) p = fst st p"
  by (auto simp: loadHouseRow_def rowPosition_def split: option.splits prod.splits)

text \<open>The example world, evaluated.\<close>

lemmas ex_world =
  ex_registry_def ex_items_def ex_type_def ex_CreateItem_def ex_position_def ex_game_def
  ex_sack_def ex_sack_bytes_def ex_tile_def ex_empty_tile_def ex_door_def ex_fixture_def
  ex_bare_tile_def ex_fixture_tile_def ex_bad_row_def

lemmas decode_eval =
  loadItem.simps loadContainer.simps unserializeAttr.simps Let_def getContainer_def getBed_def
  getDoor_def getSleeper_def NEW_BEDS_START_ID_def ATTR_CONTAINER_ITEMS_def ATTR_SLEEPERGUID_def
  setAttribute_def setSerializationCount_def startDecaying_def removeBedSleeper_def
  transformItem_def replaceItem_def

lemma ex_sack_wf: "wfItem ex_registry ex_sack"
  by (simp add: ex_world validAttribute_def ATTR_CONTAINER_ITEMS_def)

lemma ex_sack_clear: "clearCount ex_sack = ex_sack"
  by (simp add: ex_world)

lemma ex_sack_started: "startedDecaying ex_sack = [201, 200, 100]"
  by (simp add: ex_world)

lemma ex_door_saved: "saveItem [] ex_door = [44, 1, 0]"
  by (simp add: ex_door_def saveItem.simps getContainer_def Let_def write_u8_def write_u16_def)

lemmas ex_rows = ex_other_position_def ex_other_tile_def ex_map_def ex_good_row_def

lemma loadTileItems_numeral:
  "loadTileItems E (numeral k) propStream tile g =
     (case loadItem E propStream (TileCyl tile) True g of
        (ok, s1, parent1, g1) \<Rightarrow>
          loadTileItems E (pred_numeral k) s1
            (case parent1 of TileCyl t \<Rightarrow> t | ContainerCyl c \<Rightarrow> tile) g1)"
  by (simp add: numeral_eq_Suc)

lemma ex_bad_row_first_item:
  "loadItem ex_registry [144, 1, 200, 0, 0, 0, 0, 0, 201, 0, 0] (TileCyl ex_empty_tile) True ex_game =
     (False, [200, 0, 0, 0, 0, 0, 201, 0, 0], TileCyl ex_empty_tile, ex_game)"
  by (simp add: ex_world decode_eval)

lemma ex_bad_row_second_item:
  "loadItem ex_registry [200, 0, 0, 0, 0, 0, 201, 0, 0] (TileCyl ex_empty_tile) True ex_game =
     (True, [0, 0, 0, 201, 0, 0],
      TileCyl (ex_empty_tile\<lparr>getItemList := Some [Item 200 [] Plain 0 []]\<rparr>),
      ex_game\<lparr>decaying := [200]\<rparr>)"
  by (simp add: ex_world decode_eval)

lemma ex_bad_row_position: "rowPosition ex_bad_row = Some ex_position"
  by (simp add: rowPosition_def ex_bad_row_def ex_position_def)

lemma ex_bad_row_loaded:
  "loadHouseRow ex_registry ex_bad_row (ex_map, ex_game) =
     (ex_map(ex_position \<mapsto> ex_empty_tile\<lparr>getItemList := Some [Item 200 [] Plain 0 []]\<rparr>),
      ex_game\<lparr>decaying := [200]\<rparr>)"
proof -
  have p: "\<lparr>pos_x = 1, pos_y = 2, pos_z = 7\<rparr> = ex_position" by (simp add: ex_position_def)
  have m: "ex_map ex_position = Some ex_empty_tile"
    by (simp add: ex_map_def ex_position_def ex_other_position_def)
  show ?thesis
    by (simp add: loadHouseRow_def ex_bad_row_def p m loadTileItems_numeral ex_bad_row_first_item
          ex_bad_row_second_item)
qed

lemma ex_positions_differ: "ex_other_position \<noteq> ex_position"
  by (simp add: ex_position_def ex_other_position_def)

lemma ex_good_row_loaded:
  assumes "m ex_other_position = Some ex_other_tile"
  shows "fst (loadHouseRow ex_registry ex_good_row (m, g)) ex_other_position =
           Some (ex_other_tile\<lparr>getItemList := Some [Item 201 [] Plain 0 []]\<rparr>)"
proof -
  have p: "\<lparr>pos_x = 3, pos_y = 2, pos_z = 7\<rparr> = ex_other_position"
    by (simp add: ex_other_position_def)
  have li: "loadItem ex_registry [201, 0, 0] (TileCyl ex_other_tile) True g =
     (True, [], TileCyl (ex_other_tile\<lparr>getItemList := Some [Item 201 [] Plain 0 []]\<rparr>),
      startDecaying (Item 201 [] Plain 0 []) g)"
    by (simp add: ex_world ex_rows decode_eval)
  show ?thesis
    by (simp add: loadHouseRow_def ex_good_row_def p assms li)
qed

lemma ex_fixture_bad_attr: "unserializeAttr ex_fixture [5, 1] = (False, Item 600 [] Plain 0 [], [1])"
  by (simp add: ex_fixture_def decode_eval)

section \<open>The claims\<close>

subsection \<open>C1\<close>

text \<open>
  C1, as stated, fails on a stationary item: a door is saved to houses, and decoding its
  record onto the empty tile finds no item to reconcile it with, so the record is read
  into a throwaway item and the tile stays empty.
\<close>

theorem roundtrip_stationary_counterexample:
  "wfItem ex_registry ex_door \<and> isSavedToHouses ex_registry ex_door \<and>
   loadItem ex_registry (saveItem [] ex_door) (TileCyl ex_empty_tile) True ex_game =
     (True, [], TileCyl ex_empty_tile, ex_game)"
  by (simp add: ex_door_saved)
     (simp add: ex_world isSavedToHouses_def decode_eval)

text \<open>
  C1, amended. For every item that the registry can carry and whose record takes the
  branch of \<open>loadItem\<close> that creates a new item (its type is movable, a carpet or a bed
  that the legacy guard lets pass, or the parent is a container), encoding it with
  \<open>saveItem\<close> and decoding the bytes consumes exactly the record and puts in front of
  the parent's items an item with the same type id, attributes, capability and, to any
  depth, the same children in the live order.
\<close>

theorem saveItem_loadItem_roundtrip:
  assumes wf: "wfItem E item"
    and nl: "\<not> legacyBed E (getID item) isHouseItem"
    and cn: "createsNewItem E (getID item) parent"
  shows "loadItem E (saveItem [] item @ rest) parent isHouseItem g =
           (True, rest, internalAddThing parent (clearCount item),
            decayingAfter g (startedDecaying item)) \<and>
         cylinderItems (internalAddThing parent (clearCount item)) =
           clearCount item # cylinderItems parent \<and>
         getID (clearCount item) = getID item \<and>
         attributes (clearCount item) = attributes item \<and>
         itemlist (clearCount item) = map clearCount (itemlist item)"
proof -
  from wf have "loadsBack E item" by (rule loadsBack_item)
  with nl cn have "loadItem E (saveItem [] item @ rest) parent isHouseItem g =
           (True, rest, internalAddThing parent (clearCount item),
            decayingAfter g (startedDecaying item))"
    unfolding loadsBack_def by blast
  then show ?thesis
    by (simp add: cylinderItems_internalAddThing clearCount_sel)
qed

theorem saveItem_loadItem_roundtrip_witness:
  "loadItem ex_registry (ex_sack_bytes @ [9, 9]) (TileCyl ex_empty_tile) True ex_game =
     (True, [9, 9], TileCyl (ex_empty_tile\<lparr>getItemList := Some [ex_sack]\<rparr>),
      decayingAfter ex_game [201, 200, 100]) \<and>
   itemlist ex_sack = [Item 200 [] Plain 0 [], Item 201 [(5, 9)] Plain 0 []]"
proof -
  have nl: "\<not> legacyBed ex_registry (getID ex_sack) True"
    by (simp add: legacyBed_def ex_world)
  have cn: "createsNewItem ex_registry (getID ex_sack) (TileCyl ex_empty_tile)"
    by (simp add: createsNewItem_def ex_world)
  have add: "getItemList ex_empty_tile = Some []"
    by (simp add: ex_empty_tile_def)
  from saveItem_loadItem_roundtrip [OF ex_sack_wf nl cn, of "[9, 9]" ex_game, THEN conjunct1]
  have "loadItem ex_registry (ex_sack_bytes @ [9, 9]) (TileCyl ex_empty_tile) True ex_game =
     (True, [9, 9], TileCyl (ex_empty_tile\<lparr>getItemList := Some [ex_sack]\<rparr>),
      decayingAfter ex_game [201, 200, 100])"
    by (simp add: ex_sack_saved ex_sack_clear ex_sack_started add)
  then show ?thesis by (simp add: ex_sack_def)
qed

subsection \<open>C2\<close>

text \<open>
  C2, as stated, fails on a tile that has no item list: the record of a type that is
  not movable, not a carpet and not a bed creates no item on it, although the factory
  can instantiate the type.
\<close>

theorem loadItem_no_item_list_counterexample:
  "getItemList ex_bare_tile = None \<and> CreateItem ex_registry 600 = Some ex_fixture \<and>
   loadItem ex_registry [88, 2, 0] (TileCyl ex_bare_tile) False ex_game =
     (True, [], TileCyl ex_bare_tile, ex_game)"
  by (simp add: ex_world decode_eval)

text \<open>
  C2, amended. For every record whose id is read and that the legacy guard lets pass:
  when the type is movable, or the parent is not a tile, or the type is a carpet or a
  bed, \<open>loadItem\<close> puts a new item in front of the parent's items if the factory
  creates one and the decoding succeeds, and leaves the parent as it was otherwise. In
  all other cases the parent is a tile, no item is added to it, and the scan of its item
  list decides: with no match (also when the tile has no list) the tile is left as it
  was, and with a match only the matched position of the list changes.
\<close>

theorem loadItem_fresh_instance:
  assumes rd: "read_u16 propStream = Some (itemId, s1)"
    and nl: "\<not> legacyBed E itemId isHouseItem"
    and res: "loadItem E propStream parent isHouseItem g = (ok, s', parent', g')"
  shows "(createsNewItem E itemId parent \<longrightarrow>
            (ok \<and> CreateItem E itemId \<noteq> None \<longrightarrow>
               (\<exists>item. parent' = internalAddThing parent item \<and>
                       cylinderItems parent' = item # cylinderItems parent)) \<and>
            (\<not> ok \<or> CreateItem E itemId = None \<longrightarrow> parent' = parent)) \<and>
         (\<not> createsNewItem E itemId parent \<longrightarrow>
            (\<exists>tile. parent = TileCyl tile \<and>
               (stationaryMatch E itemId tile = None \<longrightarrow> parent' = parent) \<and>
               (\<forall>i item. stationaryMatch E itemId tile = Some (i, item) \<longrightarrow>
                  (\<exists>item'. parent' = TileCyl (replaceItem tile i item'))) \<and>
               length (cylinderItems parent') = length (cylinderItems parent)))"
proof (cases "createsNewItem E itemId parent")
  case True
  note eq = res [unfolded loadItem_fresh [OF rd nl True]]
  have a: "ok \<and> CreateItem E itemId \<noteq> None \<longrightarrow>
               (\<exists>item. parent' = internalAddThing parent item \<and>
                       cylinderItems parent' = item # cylinderItems parent)"
    using eq
    by (auto simp: cylinderItems_internalAddThing split: option.splits prod.splits bool.splits if_splits)
  have b: "\<not> ok \<or> CreateItem E itemId = None \<longrightarrow> parent' = parent"
    using eq by (auto split: option.splits prod.splits bool.splits if_splits)
  from True a b show ?thesis by blast
next
  case False
  then obtain tile where p: "parent = TileCyl tile"
    using not_createsNewItem_tile by blast
  note eq = res [unfolded p loadItem_stationary [OF rd nl False [unfolded p]]]
  have a: "stationaryMatch E itemId tile = None \<longrightarrow> parent' = TileCyl tile"
    using eq by (auto split: option.splits prod.splits bool.splits if_splits)
  have b: "\<forall>i item. stationaryMatch E itemId tile = Some (i, item) \<longrightarrow>
                  (\<exists>item'. parent' = TileCyl (replaceItem tile i item'))"
    using eq by (auto split: option.splits prod.splits bool.splits if_splits)
  have "length (cylinderItems parent') = length (cylinderItems (TileCyl tile))"
  proof (cases "stationaryMatch E itemId tile")
    case None
    with a show ?thesis by simp
  next
    case (Some m)
    obtain i item where "m = (i, item)" by (cases m)
    with b Some obtain item' where "parent' = TileCyl (replaceItem tile i item')" by blast
    then show ?thesis by (simp add: length_cylinderItems_replaceItem)
  qed
  with False a b p show ?thesis by simp
qed

theorem loadItem_fresh_instance_witness:
  "length (cylinderItems
     (fst (snd (snd (loadItem ex_registry [200, 0, 0] (TileCyl ex_empty_tile) False ex_game))))) = 1 \<and>
   fst (snd (snd (loadItem ex_registry [88, 2, 0] (TileCyl ex_bare_tile) False ex_game))) =
     TileCyl ex_bare_tile \<and>
   length (cylinderItems
     (fst (snd (snd (loadItem ex_registry [88, 2, 0] (TileCyl ex_fixture_tile) False ex_game))))) = 1"
proof -
  let ?r1 = "loadItem ex_registry [200, 0, 0] (TileCyl ex_empty_tile) False ex_game"
  let ?r2 = "loadItem ex_registry [88, 2, 0] (TileCyl ex_bare_tile) False ex_game"
  let ?r3 = "loadItem ex_registry [88, 2, 0] (TileCyl ex_fixture_tile) False ex_game"
  have rd1: "read_u16 [200, 0, 0] = Some (200, [0])" by simp
  have rd2: "read_u16 [88, 2, 0] = Some (600, [0])" by simp
  have nl: "\<not> legacyBed ex_registry i False" for i by (rule not_legacy)
  have c1: "createsNewItem ex_registry 200 (TileCyl ex_empty_tile)"
    by (simp add: createsNewItem_def ex_world)
  have c2: "\<not> createsNewItem ex_registry 600 (TileCyl t)" for t
    by (simp add: createsNewItem_def ex_world)
  have ok1: "fst ?r1 \<and> CreateItem ex_registry 200 \<noteq> None"
    by (simp add: ex_world decode_eval)
  have m2: "stationaryMatch ex_registry 600 ex_bare_tile = None"
    by (simp add: stationaryMatch_def ex_world)
  have e: "cylinderItems (TileCyl ex_empty_tile) = []"
    and f: "cylinderItems (TileCyl ex_fixture_tile) = [ex_fixture]"
    by (simp_all add: cylinderItems_def ex_world)
  have res: "r = (fst r, fst (snd r), fst (snd (snd r)), snd (snd (snd r)))"
    for r :: "bool \<times> byte list \<times> Cylinder \<times> Game"
    by simp
  from loadItem_fresh_instance [OF rd1 nl res [of ?r1], THEN conjunct1, rule_format, OF c1,
         THEN conjunct1, rule_format, OF ok1]
  have 1: "length (cylinderItems (fst (snd (snd ?r1)))) = 1"
    using e by auto
  from loadItem_fresh_instance [OF rd2 nl res [of ?r2], THEN conjunct2, rule_format, OF c2]
  have 2: "fst (snd (snd ?r2)) = TileCyl ex_bare_tile"
    using m2 by auto
  from loadItem_fresh_instance [OF rd2 nl res [of ?r3], THEN conjunct2, rule_format, OF c2]
  have 3: "length (cylinderItems (fst (snd (snd ?r3)))) = 1"
    using f by auto
  from 1 2 3 show ?thesis by simp
qed

subsection \<open>C3\<close>

text \<open>
  C3, as stated, fails in the throwaway branch and in the branch of the matched
  existing item: the attributes of the record fail to decode and \<open>loadItem\<close> still
  answers true.
\<close>

theorem attribute_failure_counterexample:
  "\<not> fst (unserializeAttr ex_fixture [5, 1]) \<and>
   fst (loadItem ex_registry [88, 2, 5, 1] (TileCyl ex_empty_tile) True ex_game) \<and>
   fst (loadItem ex_registry [88, 2, 5, 1] (TileCyl ex_fixture_tile) True ex_game)"
  by (simp add: ex_fixture_bad_attr) (simp add: ex_world decode_eval)

text \<open>
  C3, amended. When the attributes of a record fail to decode: in the branch that
  creates a new item \<open>loadItem\<close> answers false and leaves the parent as it was; a
  child of a container is always decoded in that branch, so \<open>loadContainer\<close> answers
  false; in the throwaway branch the failure is ignored, and the answer is that of the
  nested container load, or true for an item that is no container. When the record that
  fails is below a container, at any position and at any depth, \<open>loadContainer\<close> answers
  false for that container, and the \<open>loadItem\<close> that decodes the container answers false
  in each of its three branches: the new item is not added to the parent, and the
  throwaway leaves the tile as it was. The same holds of a nested load that fails for
  any other reason.
\<close>

theorem attribute_failure_signalled:
  assumes rd: "read_u16 propStream = Some (itemId, s1)"
  shows "(CreateItem E itemId = Some item \<and> \<not> fst (unserializeAttr item s1) \<longrightarrow>
            (\<not> legacyBed E itemId isHouseItem \<and> createsNewItem E itemId parent \<longrightarrow>
               fst (loadItem E propStream parent isHouseItem g) = False \<and>
               fst (snd (snd (loadItem E propStream parent isHouseItem g))) = parent) \<and>
            (0 < serializationCount c \<longrightarrow> fst (loadContainer E propStream c g) = False) \<and>
            (\<not> legacyBed E itemId isHouseItem \<and> \<not> createsNewItem E itemId (TileCyl tile) \<and>
             stationaryMatch E itemId tile = None \<longrightarrow>
               fst (loadItem E propStream (TileCyl tile) isHouseItem g) =
                 (if getContainer (fst (snd (unserializeAttr item s1)))
                  then fst (loadContainer E (snd (snd (unserializeAttr item s1)))
                              (fst (snd (unserializeAttr item s1))) g)
                  else True))) \<and>
         (childFails E s2 container g \<longrightarrow> fst (loadContainer E s2 container g) = False) \<and>
         (\<not> legacyBed E itemId isHouseItem \<and> getContainer container \<and>
          (childFails E s2 container g \<or> fst (loadContainer E s2 container g) = False) \<longrightarrow>
            (createsNewItem E itemId parent \<and> CreateItem E itemId = Some item \<and>
             unserializeAttr item s1 = (True, container, s2) \<longrightarrow>
               fst (loadItem E propStream parent isHouseItem g) = False \<and>
               fst (snd (snd (loadItem E propStream parent isHouseItem g))) = parent) \<and>
            (\<not> createsNewItem E itemId (TileCyl tile) \<and>
             stationaryMatch E itemId tile = Some (i, item) \<and>
             unserializeAttr item s1 = (True, container, s2) \<longrightarrow>
               fst (loadItem E propStream (TileCyl tile) isHouseItem g) = False) \<and>
            (\<not> createsNewItem E itemId (TileCyl tile) \<and>
             stationaryMatch E itemId tile = None \<and> CreateItem E itemId = Some item \<and>
             unserializeAttr item s1 = (okA, container, s2) \<longrightarrow>
               fst (loadItem E propStream (TileCyl tile) isHouseItem g) = False \<and>
               fst (snd (snd (loadItem E propStream (TileCyl tile) isHouseItem g))) = TileCyl tile))"
proof -
  have deep: "fst (loadContainer E s c g) = False" if "childFails E s c g" for s c g
    using that
  proof (induction rule: childFails.induct)
    case (childFails_here c s itemId s1 E item g)
    obtain item1 s2 where u: "unserializeAttr item s1 = (False, item1, s2)"
      using childFails_here(4) by (cases "unserializeAttr item s1") auto
    have "loadItem E s (ContainerCyl c) False g = (False, s2, ContainerCyl c, g)"
      by (simp add: loadItem_fresh [OF childFails_here(2) not_legacy createsNewItem_container]
            childFails_here(3) u)
    then show ?case
      using childFails_here(1) by (simp add: loadContainer.simps [of E s c g])
  next
    case (childFails_nested c s itemId s1 E item c1 s2 g)
    obtain s3 item2 g1 where l: "loadContainer E s2 c1 g = (False, s3, item2, g1)"
      using childFails_nested.IH by (cases "loadContainer E s2 c1 g") auto
    have "loadItem E s (ContainerCyl c) False g = (False, s3, ContainerCyl c, g1)"
      by (simp add: loadItem_fresh [OF childFails_nested(2) not_legacy createsNewItem_container]
            childFails_nested(3,4,5) l)
    then show ?case
      using childFails_nested(1) by (simp add: loadContainer.simps [of E s c g])
  next
    case (childFails_later c E s g s' c' g')
    show ?case
      using childFails_later(1,2) childFails_later.IH
      by (simp add: loadContainer.simps [of E s c g] Let_def)
  qed
  have own: "(\<not> legacyBed E itemId isHouseItem \<and> createsNewItem E itemId parent \<longrightarrow>
               fst (loadItem E propStream parent isHouseItem g) = False \<and>
               fst (snd (snd (loadItem E propStream parent isHouseItem g))) = parent) \<and>
            (0 < serializationCount c \<longrightarrow> fst (loadContainer E propStream c g) = False) \<and>
            (\<not> legacyBed E itemId isHouseItem \<and> \<not> createsNewItem E itemId (TileCyl tile) \<and>
             stationaryMatch E itemId tile = None \<longrightarrow>
               fst (loadItem E propStream (TileCyl tile) isHouseItem g) =
                 (if getContainer (fst (snd (unserializeAttr item s1)))
                  then fst (loadContainer E (snd (snd (unserializeAttr item s1)))
                              (fst (snd (unserializeAttr item s1))) g)
                  else True))"
    if cr: "CreateItem E itemId = Some item" and un: "\<not> fst (unserializeAttr item s1)"
  proof (intro conjI impI)
    obtain item1 s2 where u: "unserializeAttr item s1 = (False, item1, s2)"
      using un by (cases "unserializeAttr item s1") auto
    {
      assume a: "\<not> legacyBed E itemId isHouseItem \<and> createsNewItem E itemId parent"
      have "loadItem E propStream parent isHouseItem g = (False, s2, parent, g)"
        using a by (simp add: loadItem_fresh [OF rd] cr u)
      then show "fst (loadItem E propStream parent isHouseItem g) = False"
        and "fst (snd (snd (loadItem E propStream parent isHouseItem g))) = parent"
        by simp_all
    }
    {
      assume pos: "0 < serializationCount c"
      show "fst (loadContainer E propStream c g) = False"
        by (rule deep) (rule childFails_here [OF pos rd cr un])
    }
    {
      assume a: "\<not> legacyBed E itemId isHouseItem \<and> \<not> createsNewItem E itemId (TileCyl tile) \<and>
            stationaryMatch E itemId tile = None"
      show "fst (loadItem E propStream (TileCyl tile) isHouseItem g) =
                (if getContainer (fst (snd (unserializeAttr item s1)))
                 then fst (loadContainer E (snd (snd (unserializeAttr item s1)))
                             (fst (snd (unserializeAttr item s1))) g)
                 else True)"
        using a
        by (auto simp: loadItem_stationary [OF rd] cr u split: prod.splits bool.splits)
    }
  qed
  have encl: "(createsNewItem E itemId parent \<and> CreateItem E itemId = Some item \<and>
             unserializeAttr item s1 = (True, container, s2) \<longrightarrow>
               fst (loadItem E propStream parent isHouseItem g) = False \<and>
               fst (snd (snd (loadItem E propStream parent isHouseItem g))) = parent) \<and>
            (\<not> createsNewItem E itemId (TileCyl tile) \<and>
             stationaryMatch E itemId tile = Some (i, item) \<and>
             unserializeAttr item s1 = (True, container, s2) \<longrightarrow>
               fst (loadItem E propStream (TileCyl tile) isHouseItem g) = False) \<and>
            (\<not> createsNewItem E itemId (TileCyl tile) \<and>
             stationaryMatch E itemId tile = None \<and> CreateItem E itemId = Some item \<and>
             unserializeAttr item s1 = (okA, container, s2) \<longrightarrow>
               fst (loadItem E propStream (TileCyl tile) isHouseItem g) = False \<and>
               fst (snd (snd (loadItem E propStream (TileCyl tile) isHouseItem g))) = TileCyl tile)"
    if nl: "\<not> legacyBed E itemId isHouseItem" and gc: "getContainer container"
      and f: "childFails E s2 container g \<or> fst (loadContainer E s2 container g) = False"
  proof -
    from f deep have "fst (loadContainer E s2 container g) = False" by blast
    then obtain s3 item2 g1 where l: "loadContainer E s2 container g = (False, s3, item2, g1)"
      by (cases "loadContainer E s2 container g") auto
    show ?thesis
    proof (intro conjI impI)
      assume a: "createsNewItem E itemId parent \<and> CreateItem E itemId = Some item \<and>
             unserializeAttr item s1 = (True, container, s2)"
      then have "loadItem E propStream parent isHouseItem g = (False, s3, parent, g1)"
        by (simp add: loadItem_fresh [OF rd nl] gc l)
      then show "fst (loadItem E propStream parent isHouseItem g) = False"
        and "fst (snd (snd (loadItem E propStream parent isHouseItem g))) = parent"
        by simp_all
    next
      assume a: "\<not> createsNewItem E itemId (TileCyl tile) \<and>
             stationaryMatch E itemId tile = Some (i, item) \<and>
             unserializeAttr item s1 = (True, container, s2)"
      then show "fst (loadItem E propStream (TileCyl tile) isHouseItem g) = False"
        by (simp add: loadItem_stationary [OF rd nl] gc l)
    next
      assume a: "\<not> createsNewItem E itemId (TileCyl tile) \<and>
             stationaryMatch E itemId tile = None \<and> CreateItem E itemId = Some item \<and>
             unserializeAttr item s1 = (okA, container, s2)"
      then have "loadItem E propStream (TileCyl tile) isHouseItem g = (False, s3, TileCyl tile, g1)"
        by (simp add: loadItem_stationary [OF rd nl] gc l)
      then show "fst (loadItem E propStream (TileCyl tile) isHouseItem g) = False"
        and "fst (snd (snd (loadItem E propStream (TileCyl tile) isHouseItem g))) = TileCyl tile"
        by simp_all
    qed
  qed
  from own deep encl show ?thesis by blast
qed

theorem attribute_failure_signalled_witness:
  "fst (loadItem ex_registry [200, 0, 5, 1] (TileCyl ex_empty_tile) True ex_game) = False \<and>
   fst (loadContainer ex_registry [200, 0, 5, 1] (Item 100 [] ContainerCap 1 []) ex_game) = False \<and>
   fst (loadItem ex_registry [88, 2, 5, 1] (TileCyl ex_empty_tile) True ex_game) = True \<and>
   fst (loadItem ex_registry ex_nested_bad (TileCyl ex_empty_tile) True ex_game) = False \<and>
   fst (snd (snd (loadItem ex_registry ex_nested_bad (TileCyl ex_empty_tile) True ex_game))) =
     TileCyl ex_empty_tile \<and>
   fst (loadItem ex_registry ex_chest_bad (TileCyl ex_chest_tile) True ex_game) = False \<and>
   fst (loadItem ex_registry ex_chest_bad (TileCyl ex_empty_tile) True ex_game) = False"
proof -
  have rd1: "read_u16 [200, 0, 5, 1] = Some (200, [5, 1])" by simp
  have rd2: "read_u16 [88, 2, 5, 1] = Some (600, [5, 1])" by simp
  have cr1: "CreateItem ex_registry 200 = Some (Item 200 [] Plain 0 [])"
    and cr2: "CreateItem ex_registry 600 = Some ex_fixture"
    and cr3: "CreateItem ex_registry 100 = Some (Item 100 [] ContainerCap 0 [])"
    and cr4: "CreateItem ex_registry 500 = Some ex_chest"
    and cr5: "CreateItem ex_registry 201 = Some (Item 201 [] Plain 0 [])"
    by (simp_all add: ex_world ex_chest_def)
  have un1: "\<not> fst (unserializeAttr (Item 200 [] Plain 0 []) [5, 1])"
    by (simp add: decode_eval)
  have un2: "\<not> fst (unserializeAttr ex_fixture [5, 1])"
    by (simp add: ex_fixture_bad_attr)
  have own1: "CreateItem ex_registry 200 = Some (Item 200 [] Plain 0 []) \<and>
              \<not> fst (unserializeAttr (Item 200 [] Plain 0 []) [5, 1])"
    using cr1 un1 by simp
  have own2: "CreateItem ex_registry 600 = Some ex_fixture \<and> \<not> fst (unserializeAttr ex_fixture [5, 1])"
    using cr2 un2 by simp
  have a: "\<not> legacyBed ex_registry 200 True \<and> createsNewItem ex_registry 200 (TileCyl ex_empty_tile)"
    by (simp add: legacyBed_def createsNewItem_def ex_world)
  have b: "0 < serializationCount (Item 100 [] ContainerCap 1 [])" by simp
  have c: "\<not> legacyBed ex_registry 600 True \<and> \<not> createsNewItem ex_registry 600 (TileCyl ex_empty_tile) \<and>
          stationaryMatch ex_registry 600 ex_empty_tile = None"
    by (simp add: legacyBed_def createsNewItem_def stationaryMatch_def ex_world)
  note t1 = attribute_failure_signalled [OF rd1, where E = ex_registry
              and item = "Item 200 [] Plain 0 []" and isHouseItem = True
              and parent = "TileCyl ex_empty_tile" and g = ex_game
              and c = "Item 100 [] ContainerCap 1 []", THEN conjunct1, rule_format, OF own1]
  note t2 = attribute_failure_signalled [OF rd2, where E = ex_registry
              and item = ex_fixture and isHouseItem = True and tile = ex_empty_tile
              and g = ex_game, THEN conjunct1, rule_format, OF own2]
  have 1: "fst (loadItem ex_registry [200, 0, 5, 1] (TileCyl ex_empty_tile) True ex_game) = False"
    using t1 [THEN conjunct1, rule_format, OF a] by simp
  have 2: "fst (loadContainer ex_registry [200, 0, 5, 1] (Item 100 [] ContainerCap 1 []) ex_game) = False"
    using t1 [THEN conjunct2, THEN conjunct1, rule_format, OF b] by simp
  have 3: "fst (loadItem ex_registry [88, 2, 5, 1] (TileCyl ex_empty_tile) True ex_game) = True"
    using t2 [THEN conjunct2, THEN conjunct2, rule_format, OF c]
    by (simp add: ex_fixture_bad_attr getContainer_def)
  let ?inner = "Item 100 [] ContainerCap 2 []"
  let ?inner1 = "Item 100 [] ContainerCap 2 [Item 200 [] Plain 0 []]"
  let ?g1 = "startDecaying (Item 200 [] Plain 0 []) ex_game"
  have last: "childFails ex_registry [201, 0, 5, 1] (Item 100 [] ContainerCap 1 [Item 200 [] Plain 0 []]) ?g1"
    by (rule childFails_here [where itemId = 201 and ?s1.0 = "[5, 1]"
          and item = "Item 201 [] Plain 0 []"])
       (simp_all add: cr5 decode_eval)
  have first: "loadItem ex_registry [200, 0, 0, 201, 0, 5, 1] (ContainerCyl ?inner) False ex_game =
      (True, [201, 0, 5, 1], ContainerCyl ?inner1, ?g1)"
    by (simp add: ex_world decode_eval)
  have inner: "childFails ex_registry [200, 0, 0, 201, 0, 5, 1] ?inner ex_game"
    by (rule childFails_later [OF _ first]) (simp_all add: setSerializationCount_def last)
  have outer: "childFails ex_registry [100, 0, 23, 2, 0, 0, 0, 200, 0, 0, 201, 0, 5, 1]
                 (Item 100 [] ContainerCap 1 []) ex_game"
    by (rule childFails_nested [where itemId = 100 and ?s1.0 = "[23, 2, 0, 0, 0, 200, 0, 0, 201, 0, 5, 1]"
          and item = "Item 100 [] ContainerCap 0 []" and ?c1.0 = ?inner
          and ?s2.0 = "[200, 0, 0, 201, 0, 5, 1]"])
       (simp_all add: cr3 decode_eval inner)
  have rd3: "read_u16 ex_nested_bad =
      Some (100, [23, 1, 0, 0, 0, 100, 0, 23, 2, 0, 0, 0, 200, 0, 0, 201, 0, 5, 1])"
    by (simp add: ex_nested_bad_def)
  have d: "\<not> legacyBed ex_registry 100 True \<and> getContainer (Item 100 [] ContainerCap 1 []) \<and>
           (childFails ex_registry [100, 0, 23, 2, 0, 0, 0, 200, 0, 0, 201, 0, 5, 1]
                 (Item 100 [] ContainerCap 1 []) ex_game \<or>
            fst (loadContainer ex_registry [100, 0, 23, 2, 0, 0, 0, 200, 0, 0, 201, 0, 5, 1]
                 (Item 100 [] ContainerCap 1 []) ex_game) = False)"
    using outer by (simp add: legacyBed_def getContainer_def ex_world)
  have e: "createsNewItem ex_registry 100 (TileCyl ex_empty_tile) \<and>
           CreateItem ex_registry 100 = Some (Item 100 [] ContainerCap 0 []) \<and>
           unserializeAttr (Item 100 [] ContainerCap 0 [])
             [23, 1, 0, 0, 0, 100, 0, 23, 2, 0, 0, 0, 200, 0, 0, 201, 0, 5, 1] =
             (True, Item 100 [] ContainerCap 1 [], [100, 0, 23, 2, 0, 0, 0, 200, 0, 0, 201, 0, 5, 1])"
    by (simp add: createsNewItem_def cr3 decode_eval) (simp add: ex_world)
  note t3 = attribute_failure_signalled [OF rd3, where E = ex_registry and isHouseItem = True
              and container = "Item 100 [] ContainerCap 1 []" and g = ex_game
              and ?s2.0 = "[100, 0, 23, 2, 0, 0, 0, 200, 0, 0, 201, 0, 5, 1]"
              and parent = "TileCyl ex_empty_tile" and item = "Item 100 [] ContainerCap 0 []",
              THEN conjunct2, THEN conjunct2, rule_format, OF d, THEN conjunct1, rule_format, OF e]
  have rd4: "read_u16 ex_chest_bad = Some (500, [23, 1, 0, 0, 0, 200, 0, 5, 1])"
    by (simp add: ex_chest_bad_def)
  have chest: "childFails ex_registry [200, 0, 5, 1] (Item 500 [] ContainerCap 1 []) ex_game"
    by (rule childFails_here [where itemId = 200 and ?s1.0 = "[5, 1]"
          and item = "Item 200 [] Plain 0 []"])
       (simp_all add: cr1 un1)
  have f: "\<not> legacyBed ex_registry 500 True \<and> getContainer (Item 500 [] ContainerCap 1 []) \<and>
           (childFails ex_registry [200, 0, 5, 1] (Item 500 [] ContainerCap 1 []) ex_game \<or>
            fst (loadContainer ex_registry [200, 0, 5, 1] (Item 500 [] ContainerCap 1 []) ex_game) = False)"
    using chest by (simp add: legacyBed_def getContainer_def ex_world)
  have un4: "unserializeAttr ex_chest [23, 1, 0, 0, 0, 200, 0, 5, 1] =
               (True, Item 500 [] ContainerCap 1 [], [200, 0, 5, 1])"
    by (simp add: ex_chest_def decode_eval)
  have m: "\<not> createsNewItem ex_registry 500 (TileCyl ex_chest_tile) \<and>
           stationaryMatch ex_registry 500 ex_chest_tile = Some (0, ex_chest) \<and>
           unserializeAttr ex_chest [23, 1, 0, 0, 0, 200, 0, 5, 1] =
               (True, Item 500 [] ContainerCap 1 [], [200, 0, 5, 1])"
    unfolding un4
    by (simp add: createsNewItem_def stationaryMatch_def ex_chest_tile_def ex_chest_def ex_world)
  have n: "\<not> createsNewItem ex_registry 500 (TileCyl ex_empty_tile) \<and>
           stationaryMatch ex_registry 500 ex_empty_tile = None \<and>
           CreateItem ex_registry 500 = Some ex_chest \<and>
           unserializeAttr ex_chest [23, 1, 0, 0, 0, 200, 0, 5, 1] =
               (True, Item 500 [] ContainerCap 1 [], [200, 0, 5, 1])"
    unfolding un4
    by (simp add: createsNewItem_def stationaryMatch_def cr4) (simp add: ex_world)
  note t4 = attribute_failure_signalled [OF rd4, where E = ex_registry and isHouseItem = True
              and container = "Item 500 [] ContainerCap 1 []" and g = ex_game
              and ?s2.0 = "[200, 0, 5, 1]" and tile = ex_chest_tile and item = ex_chest
              and i = 0,
              THEN conjunct2, THEN conjunct2, rule_format, OF f, THEN conjunct2, THEN conjunct1,
              rule_format, OF m]
  note t5 = attribute_failure_signalled [OF rd4, where E = ex_registry and isHouseItem = True
              and container = "Item 500 [] ContainerCap 1 []" and g = ex_game
              and ?s2.0 = "[200, 0, 5, 1]" and tile = ex_empty_tile and item = ex_chest
              and okA = True,
              THEN conjunct2, THEN conjunct2, rule_format, OF f, THEN conjunct2, THEN conjunct2,
              rule_format, OF n]
  from 1 2 3 t3 t4 t5 show ?thesis by simp
qed

subsection \<open>C4\<close>

text \<open>
  C4, as stated, fails on a row of two items whose first item is rejected: the loop
  calls \<open>loadItem\<close> again on the rest of the row, which decodes an item with id 200 out
  of the bytes of the rejected record and puts it on the tile.
\<close>

theorem loadHouseItems_desynchronized_counterexample:
  "fst (loadItem ex_registry [144, 1, 200, 0, 0, 0, 0, 0, 201, 0, 0] (TileCyl ex_empty_tile) True
          ex_game) = False \<and>
   fst (loadHouseItems ex_registry [ex_bad_row] (ex_map, ex_game)) ex_position =
     Some (ex_empty_tile\<lparr>getItemList := Some [Item 200 [] Plain 0 []]\<rparr>)"
  by (simp add: ex_bad_row_first_item ex_bad_row_loaded)

text \<open>
  C4, amended. Whatever happens while a row is decoded, the load goes on with the next
  stored row, and a row changes no tile but the one at the position it names.
\<close>

theorem loadHouseItems_continues:
  "loadHouseItems E (rows1 @ attr # rows2) st =
     loadHouseItems E rows2 (loadHouseRow E attr (loadHouseItems E rows1 st)) \<and>
   (\<forall>p. rowPosition attr \<noteq> Some p \<longrightarrow> fst (loadHouseRow E attr st) p = fst st p)"
proof
  show "loadHouseItems E (rows1 @ attr # rows2) st =
     loadHouseItems E rows2 (loadHouseRow E attr (loadHouseItems E rows1 st))"
    by (simp add: loadHouseItems_append)
  show "\<forall>p. rowPosition attr \<noteq> Some p \<longrightarrow> fst (loadHouseRow E attr st) p = fst st p"
    by (simp add: loadHouseRow_elsewhere)
qed

theorem loadHouseItems_continues_witness:
  "fst (loadHouseRow ex_registry ex_bad_row (ex_map, ex_game)) ex_other_position =
     Some ex_other_tile \<and>
   fst (loadHouseItems ex_registry [ex_bad_row, ex_good_row] (ex_map, ex_game)) ex_other_position =
     Some (ex_other_tile\<lparr>getItemList := Some [Item 201 [] Plain 0 []]\<rparr>)"
proof -
  note t = loadHouseItems_continues [of ex_registry "[]" ex_bad_row "[ex_good_row]" "(ex_map, ex_game)"]
  have ne: "rowPosition ex_bad_row \<noteq> Some ex_other_position"
    by (simp add: ex_bad_row_position ex_position_def ex_other_position_def)
  have mo: "ex_map ex_other_position = Some ex_other_tile"
    by (simp add: ex_map_def)
  from t [THEN conjunct2, rule_format, OF ne]
  have 1: "fst (loadHouseRow ex_registry ex_bad_row (ex_map, ex_game)) ex_other_position =
     Some ex_other_tile"
    by (simp add: mo)
  from t [THEN conjunct1]
  have "loadHouseItems ex_registry [ex_bad_row, ex_good_row] (ex_map, ex_game) =
          loadHouseRow ex_registry ex_good_row (loadHouseRow ex_registry ex_bad_row (ex_map, ex_game))"
    by simp
  then have 2: "fst (loadHouseItems ex_registry [ex_bad_row, ex_good_row] (ex_map, ex_game))
          ex_other_position =
     Some (ex_other_tile\<lparr>getItemList := Some [Item 201 [] Plain 0 []]\<rparr>)"
    unfolding ex_bad_row_loaded
    by (simp add: ex_good_row_loaded mo ex_positions_differ)
  from 1 2 show ?thesis by simp
qed

subsection \<open>C5\<close>

text \<open>
  C5. A record of a bed type whose id is below the legacy threshold 30000, loaded as a
  house item, makes \<open>loadItem\<close> fail once the id is read, whatever payload follows the
  id; the parent and the game state are left as they were.
\<close>

theorem legacy_bed_rejected:
  assumes bed: "isBed (items E itemId)" and legacy: "unat itemId < 30000"
  shows "loadItem E (write_u16 [] itemId @ payload) parent True g = (False, payload, parent, g)"
proof -
  have rd: "read_u16 (write_u16 [] itemId @ payload) = Some (itemId, payload)"
    by (rule read_u16_write_u16)
  have "ucast itemId < NEW_BEDS_START_ID"
    using legacy by (simp add: below_NEW_BEDS_START_ID)
  with bed show ?thesis
    by (simp add: loadItem.simps rd Let_def)
qed

theorem legacy_bed_rejected_witness:
  "loadItem ex_registry [144, 1, 20, 9, 0, 0, 0, 0] (TileCyl ex_empty_tile) True ex_game =
     (False, [20, 9, 0, 0, 0, 0], TileCyl ex_empty_tile, ex_game) \<and>
   loadItem ex_registry [144, 1, 0] (TileCyl ex_empty_tile) True ex_game =
     (False, [0], TileCyl ex_empty_tile, ex_game)"
proof -
  have b: "isBed (items ex_registry 400)"
    by (simp add: ex_registry_def ex_items_def ex_type_def)
  have l: "unat (400 :: u16) < 30000" by simp
  have w: "write_u16 [] (400 :: u16) = [144, 1]" by (simp add: write_u16_def)
  from legacy_bed_rejected [OF b l, of "[20, 9, 0, 0, 0, 0]" "TileCyl ex_empty_tile" ex_game]
       legacy_bed_rejected [OF b l, of "[0]" "TileCyl ex_empty_tile" ex_game]
  show ?thesis by (simp add: w)
qed

subsection \<open>C6\<close>

text \<open>
  C6, as stated, fails when the factory creates no item for the id: \<open>loadItem\<close> answers
  true after the id, and the attribute bytes that \<open>saveItem\<close> wrote stay in the stream.
\<close>

theorem throwaway_null_factory_counterexample:
  "\<not> moveable (items ex_registry 900) \<and> \<not> isCarpet (items ex_registry 900) \<and>
   \<not> isBed (items ex_registry 900) \<and>
   stationaryMatch ex_registry 900 ex_empty_tile = None \<and>
   saveItem [] ex_relic = [132, 3, 5, 1, 0, 0, 0, 0] \<and>
   loadItem ex_registry (saveItem [] ex_relic @ [9]) (TileCyl ex_empty_tile) True ex_game =
     (True, [5, 1, 0, 0, 0, 0, 9], TileCyl ex_empty_tile, ex_game)"
proof -
  have sv: "saveItem [] ex_relic = [132, 3, 5, 1, 0, 0, 0, 0]"
    by (simp add: ex_relic_def saveItem.simps getContainer_def Let_def
          write_u8_def write_u16_def write_u32_def)
  show ?thesis
    unfolding sv by (simp add: ex_world decode_eval stationaryMatch_def)
qed

text \<open>
  C6, amended. For a record of a type that is not movable, not a carpet and not a bed, on
  a tile whose scan finds no match, the tile is left as it was. When the factory creates
  no item, \<open>loadItem\<close> answers true with the stream right after the id and the game as it
  was. When the factory creates the throwaway item: the stream is consumed through the
  attributes and, for a container, through the nested container; the bed-sleeper
  bookkeeping changes only when the throwaway is a bed with a sleeper other than 0,
  which is then released. A record written by \<open>saveItem\<close> for an item that the registry
  can carry is consumed exactly.
\<close>

theorem throwaway_decode:
  assumes rd: "read_u16 propStream = Some (itemId, s1)"
    and ty: "\<not> moveable (items E itemId)" "\<not> isCarpet (items E itemId)" "\<not> isBed (items E itemId)"
    and nm: "stationaryMatch E itemId tile = None"
    and res: "loadItem E propStream (TileCyl tile) isHouseItem g = (ok, s', parent', g')"
  shows "parent' = TileCyl tile \<and>
         (CreateItem E itemId = None \<longrightarrow> ok \<and> s' = s1 \<and> g' = g) \<and>
         (CreateItem E itemId = Some dummy \<and> unserializeAttr dummy s1 = (okA, dummy1, s2) \<longrightarrow>
            (getContainer dummy1 \<longrightarrow>
               ok = fst (loadContainer E s2 dummy1 g) \<and>
               s' = fst (snd (loadContainer E s2 dummy1 g)) \<and>
               bedSleepers g' = bedSleepers g) \<and>
            (\<not> getContainer dummy1 \<longrightarrow>
               ok \<and> s' = s2 \<and>
               g' = (if getBed dummy1 \<and> getSleeper dummy1 \<noteq> 0
                     then removeBedSleeper g (getSleeper dummy1) else g))) \<and>
         (\<forall>item rest. wfItem E item \<and> getID item = itemId \<and>
                      propStream = saveItem [] item @ rest \<longrightarrow> ok \<and> s' = rest)"
proof -
  have nl: "\<not> legacyBed E itemId isHouseItem" using ty(3) by (simp add: legacyBed_def)
  have nc: "\<not> createsNewItem E itemId (TileCyl tile)"
    using ty by (simp add: createsNewItem_def)
  note eq = res [unfolded loadItem_stationary [OF rd nl nc]]
  have 0: "CreateItem E itemId = None \<longrightarrow> ok \<and> s' = s1 \<and> g' = g \<and> parent' = TileCyl tile"
    using eq by (auto simp: nm)
  have some: "parent' = TileCyl tile \<and>
         (getContainer dummy1 \<longrightarrow>
            ok = fst (loadContainer E s2 dummy1 g) \<and>
            s' = fst (snd (loadContainer E s2 dummy1 g)) \<and>
            bedSleepers g' = bedSleepers g) \<and>
         (\<not> getContainer dummy1 \<longrightarrow>
            ok \<and> s' = s2 \<and>
            g' = (if getBed dummy1 \<and> getSleeper dummy1 \<noteq> 0
                  then removeBedSleeper g (getSleeper dummy1) else g))"
    if cr: "CreateItem E itemId = Some dummy" and un: "unserializeAttr dummy s1 = (okA, dummy1, s2)"
    for dummy okA dummy1 s2
  proof -
    have 1: "parent' = TileCyl tile"
      using eq by (auto simp: nm cr un split: prod.splits bool.splits if_splits)
    have 2: "getContainer dummy1 \<longrightarrow>
              ok = fst (loadContainer E s2 dummy1 g) \<and>
              s' = fst (snd (loadContainer E s2 dummy1 g)) \<and>
              bedSleepers g' = bedSleepers g"
      using eq loadContainer_bedSleepers [of E s2 dummy1 g]
      by (auto simp: nm cr un split: prod.splits bool.splits if_splits)
    have 3: "\<not> getContainer dummy1 \<longrightarrow>
              ok \<and> s' = s2 \<and>
              g' = (if getBed dummy1 \<and> getSleeper dummy1 \<noteq> 0
                    then removeBedSleeper g (getSleeper dummy1) else g)"
      using eq by (auto simp: nm cr un split: prod.splits bool.splits if_splits)
    from 1 2 3 show ?thesis by blast
  qed
  have 1: "parent' = TileCyl tile"
  proof (cases "CreateItem E itemId")
    case None
    with 0 show ?thesis by simp
  next
    case (Some d)
    obtain a b c where "unserializeAttr d s1 = (a, b, c)" by (cases "unserializeAttr d s1")
    from some [OF Some this] show ?thesis by simp
  qed
  have 4: "\<forall>item rest. wfItem E item \<and> getID item = itemId \<and>
                      propStream = saveItem [] item @ rest \<longrightarrow> ok \<and> s' = rest"
  proof (intro allI impI)
    fix item rest
    assume a: "wfItem E item \<and> getID item = itemId \<and> propStream = saveItem [] item @ rest"
    obtain i as cap n cs where it: "item = Item i as cap n cs" by (cases item)
    from a have wfi: "wfItem E item" and gid: "getID item = itemId"
      and ps0: "propStream = saveItem [] item @ rest"
      by blast+
    from gid it have i: "i = itemId" by simp
    from ps0 it have ps: "propStream = saveItem [] (Item i as cap n cs) @ rest" by simp
    from wfi [unfolded it] have crb: "CreateItem E i = Some (Item i [] cap 0 [])"
      and va: "list_all validAttribute as"
      and ncs: "cap \<noteq> ContainerCap \<Longrightarrow> cs = []"
      and len: "length cs < 4294967296"
      and wfc: "\<And>x. x \<in> set cs \<Longrightarrow> wfItem E x"
      by (simp_all add: list_all_iff)
    let ?dummy = "Item i [] cap 0 []"
    from crb i have cr: "CreateItem E itemId = Some ?dummy" by simp
    show "ok \<and> s' = rest"
    proof (cases "cap = ContainerCap")
      case False
      then have ngc: "\<not> getContainer (Item i as cap n cs)" by (simp add: getContainer_def)
      have "read_u16 propStream = Some (i, serializeAttr [] as @ write_u8 [] 0 @ rest)"
        unfolding ps by (simp add: saveItem_plain [OF ngc] read_u16_write_u16)
      with rd have s1: "s1 = serializeAttr [] as @ write_u8 [] 0 @ rest" by simp
      have un: "unserializeAttr ?dummy s1 = (True, Item i as cap 0 [], rest)"
        unfolding s1 by (simp add: unserializeAttr_serialized [OF va] unserializeAttr_end)
      from some [OF cr un] False show ?thesis by (simp add: getContainer_def)
    next
      case True
      then have gc: "getContainer (Item i as cap n cs)" by (simp add: getContainer_def)
      let ?kids = "concat (map (saveItem []) (rev cs)) @ write_u8 [] 0 @ rest"
      let ?item1 = "Item i as cap (of_nat (length cs)) []"
      have "read_u16 propStream = Some (i, serializeAttr [] as @ write_u8 [] ATTR_CONTAINER_ITEMS @
                  write_u32 [] (of_nat (length cs)) @ ?kids)"
        unfolding ps by (simp add: saveItem_container [OF gc] read_u16_write_u16)
      with rd have s1: "s1 = serializeAttr [] as @ write_u8 [] ATTR_CONTAINER_ITEMS @
                  write_u32 [] (of_nat (length cs)) @ ?kids" by simp
      have un: "unserializeAttr ?dummy s1 = (True, ?item1, ?kids)"
        unfolding s1 using True
        by (simp add: unserializeAttr_serialized [OF va] unserializeAttr_container getContainer_def
              setSerializationCount_def)
      have ih: "\<And>x. x \<in> set (rev cs) \<Longrightarrow> loadsBack E x"
        using wfc by (simp add: loadsBack_item)
      have "loadContainer E ?kids ?item1 g =
         (True, rest,
          Item (getID ?item1) (attributes ?item1) (capability ?item1) 0
               (rev (map clearCount (rev cs)) @ itemlist ?item1),
          decayingAfter g (concat (map startedDecaying (rev cs))))"
        by (rule loadContainer_children [OF ih]) (simp_all add: len)
      with some [OF cr un] True show ?thesis by (simp add: getContainer_def)
    qed
  qed
  from 0 1 some [of dummy okA dummy1 s2] 4 show ?thesis by blast
qed

theorem throwaway_decode_witness:
  "loadItem ex_registry [188, 2, 20, 77, 0, 0, 0, 0] (TileCyl ex_empty_tile) True ex_game =
     (True, [], TileCyl ex_empty_tile, removeBedSleeper ex_game 77) \<and>
   bedSleepers ex_game = {77} \<and> bedSleepers (removeBedSleeper ex_game 77) = {} \<and>
   fst (snd (loadItem ex_registry (saveItem [] ex_fixture @ [9]) (TileCyl ex_empty_tile) True
               ex_game)) = [9] \<and>
   loadItem ex_registry [132, 3, 0] (TileCyl ex_empty_tile) True ex_game =
     (True, [0], TileCyl ex_empty_tile, ex_game)"
proof -
  let ?r = "loadItem ex_registry [188, 2, 20, 77, 0, 0, 0, 0] (TileCyl ex_empty_tile) True ex_game"
  let ?q = "loadItem ex_registry (saveItem [] ex_fixture @ [9]) (TileCyl ex_empty_tile) True ex_game"
  let ?n = "loadItem ex_registry [132, 3, 0] (TileCyl ex_empty_tile) True ex_game"
  have res: "r = (fst r, fst (snd r), fst (snd (snd r)), snd (snd (snd r)))"
    for r :: "bool \<times> byte list \<times> Cylinder \<times> Game"
    by simp
  have rd: "read_u16 [188, 2, 20, 77, 0, 0, 0, 0] = Some (700, [20, 77, 0, 0, 0, 0])" by simp
  have ty: "\<not> moveable (items ex_registry 700)" "\<not> isCarpet (items ex_registry 700)"
    "\<not> isBed (items ex_registry 700)"
    by (simp_all add: ex_world)
  have ty2: "\<not> moveable (items ex_registry 600)" "\<not> isCarpet (items ex_registry 600)"
    "\<not> isBed (items ex_registry 600)"
    by (simp_all add: ex_world)
  have ty3: "\<not> moveable (items ex_registry 900)" "\<not> isCarpet (items ex_registry 900)"
    "\<not> isBed (items ex_registry 900)"
    by (simp_all add: ex_world)
  have nm: "stationaryMatch ex_registry i ex_empty_tile = None" for i
    by (simp add: stationaryMatch_def ex_world)
  have cr: "CreateItem ex_registry 700 = Some (Item 700 [] BedCap 0 []) \<and>
            unserializeAttr (Item 700 [] BedCap 0 []) [20, 77, 0, 0, 0, 0] =
              (True, Item 700 [(20, 77)] BedCap 0 [], [])"
    by (simp add: ex_world decode_eval)
  have sl: "getSleeper (Item 700 [(20, 77)] BedCap 0 []) = 77"
    by (simp add: getSleeper_def ATTR_SLEEPERGUID_def)
  from throwaway_decode [OF rd ty(1) ty(2) ty(3) nm res [of ?r], THEN conjunct1]
       throwaway_decode [OF rd ty(1) ty(2) ty(3) nm res [of ?r], THEN conjunct2, THEN conjunct2,
         THEN conjunct1, rule_format, OF cr]
  have 1: "?r = (True, [], TileCyl ex_empty_tile, removeBedSleeper ex_game 77)"
    by (simp add: getContainer_def getBed_def sl prod_eq_iff)
  have sv: "saveItem [] ex_fixture @ [9] = [88, 2, 0, 9]"
    by (simp add: ex_fixture_def saveItem.simps getContainer_def Let_def write_u8_def write_u16_def)
  have rd2: "read_u16 (saveItem [] ex_fixture @ [9]) = Some (600, [0, 9])"
    by (simp add: sv)
  have wf: "wfItem ex_registry ex_fixture \<and> getID ex_fixture = 600 \<and>
            saveItem [] ex_fixture @ [9] = saveItem [] ex_fixture @ [9]"
    by (simp add: ex_world)
  from throwaway_decode [OF rd2 ty2(1) ty2(2) ty2(3) nm res [of ?q],
         THEN conjunct2, THEN conjunct2, THEN conjunct2, rule_format, OF wf]
  have 2: "fst (snd ?q) = [9]" by simp
  have rd3: "read_u16 [132, 3, 0] = Some (900, [0])" by simp
  have cr3: "CreateItem ex_registry 900 = None" by (simp add: ex_world)
  from throwaway_decode [OF rd3 ty3(1) ty3(2) ty3(3) nm res [of ?n], THEN conjunct1]
       throwaway_decode [OF rd3 ty3(1) ty3(2) ty3(3) nm res [of ?n], THEN conjunct2, THEN conjunct1,
         rule_format, OF cr3]
  have 3: "?n = (True, [0], TileCyl ex_empty_tile, ex_game)"
    by (simp add: prod_eq_iff)
  from 1 2 3 show ?thesis
    by (simp add: removeBedSleeper_def ex_game_def)
qed

subsection \<open>C7\<close>

text \<open>
  C7. On a tile with 65536 qualifying items the row departs from the layout: \<open>saveTile\<close>
  counts the items in a 16-bit counter, which has wrapped to 0 when it is written as the
  32-bit count field, and all 65536 encoded items follow the field. \<open>loadHouseItems\<close>
  takes the field for the number of records, so none of the items comes back to the tile.
\<close>

theorem saveTile_count_field_wraps:
  "length (qualifyingItems ex_registry ex_crowded_tile) = 65536 \<and>
   saveTile ex_registry [] ex_crowded_tile =
     tileHeader ex_position 0 @
     concat (map (saveItem []) (rev (qualifyingItems ex_registry ex_crowded_tile))) \<and>
   length (map (saveItem []) (rev (qualifyingItems ex_registry ex_crowded_tile))) = 65536 \<and>
   storedItemCount (saveTile ex_registry [] ex_crowded_tile) = Some 0 \<and>
   fst (loadHouseRow ex_registry (saveTile ex_registry [] ex_crowded_tile) (ex_map, ex_game))
     ex_position = Some ex_empty_tile"
proof -
  have ne: "qualifyingItems ex_registry ex_crowded_tile \<noteq> []"
    by (simp add: qualifying_crowded)
  have z: "(ucast (of_nat (length (qualifyingItems ex_registry ex_crowded_tile)) :: u16) :: u32) = 0"
    by (simp add: qualifying_crowded)
  have p: "getPosition ex_crowded_tile = ex_position" by (simp add: ex_crowded_tile_def)
  have blob: "saveTile ex_registry [] ex_crowded_tile =
     tileHeader ex_position 0 @
     concat (map (saveItem []) (rev (qualifyingItems ex_registry ex_crowded_tile)))"
    using saveTile_nonempty [OF ne, of "[]"] unfolding z p by simp
  have cnt: "storedItemCount (saveTile ex_registry [] ex_crowded_tile) = Some 0"
    unfolding blob by (rule storedItemCount_tileHeader)
  have len: "length (qualifyingItems ex_registry ex_crowded_tile) = 65536"
    by (simp add: qualifying_crowded)
  have hdr: "tileHeader ex_position 0 @ rest = [1, 0, 2, 0, 7, 0, 0, 0, 0] @ rest" for rest
    by (simp add: tileHeader_def ex_position_def write_u8_def write_u16_def write_u32_def)
  have rb: "fst (loadHouseRow ex_registry (saveTile ex_registry [] ex_crowded_tile) (ex_map, ex_game))
     ex_position = Some ex_empty_tile"
    unfolding blob hdr
    by (simp add: loadHouseRow_def ex_map_def ex_position_def ex_other_position_def)
  from len blob cnt rb show ?thesis by simp
qed

text \<open>
  Where the counter does not wrap. A tile with no qualifying item adds nothing to the
  stream, so no row is written for it. A tile with at least one and fewer than 65536
  qualifying items yields the blob position, 32-bit item count, encoded items, where the
  count is the number of the encoded items. A save pass that succeeds leaves in the table
  exactly one row for each tile with a qualifying item, tagged with the id of the house,
  in house and tile order.
\<close>

lemma saveTile_row_layout:
  "(qualifyingItems E tile = [] \<longrightarrow> saveTile E [] tile = []) \<and>
   (qualifyingItems E tile \<noteq> [] \<and> length (qualifyingItems E tile) < 65536 \<longrightarrow>
      saveTile E [] tile =
        tileHeader (getPosition tile) (of_nat (length (qualifyingItems E tile))) @
        concat (map (saveItem []) (rev (qualifyingItems E tile))) \<and>
      storedItemCount (saveTile E [] tile) = Some (of_nat (length (qualifyingItems E tile))) \<and>
      unat (of_nat (length (qualifyingItems E tile)) :: u32) =
        length (map (saveItem []) (rev (qualifyingItems E tile)))) \<and>
   (SaveHouseItemsGuard D E houses db = (True, db') \<longrightarrow>
      tile_store db' =
        concat (map (\<lambda>house. map (\<lambda>tile. (getId house, saveTile E [] tile))
                      (filter (\<lambda>tile. qualifyingItems E tile \<noteq> []) (getTiles house))) houses))"
proof (intro conjI impI)
  assume "qualifyingItems E tile = []"
  then show "saveTile E [] tile = []" by (rule saveTile_empty)
next
  assume a: "qualifyingItems E tile \<noteq> [] \<and> length (qualifyingItems E tile) < 65536"
  let ?n = "length (qualifyingItems E tile)"
  have "unat (ucast (of_nat ?n :: u16) :: u32) = ?n" using a by (simp add: unat_count16)
  moreover have un: "unat (of_nat ?n :: u32) = ?n" using a by (simp add: unat_of_nat)
  ultimately have c: "(ucast (of_nat ?n :: u16) :: u32) = of_nat ?n"
    by (simp add: word_unat_eq_iff)
  show blob: "saveTile E [] tile =
        tileHeader (getPosition tile) (of_nat ?n) @
        concat (map (saveItem []) (rev (qualifyingItems E tile)))"
    using saveTile_nonempty [of E tile "[]"] a unfolding c by simp
  show "storedItemCount (saveTile E [] tile) = Some (of_nat ?n)"
    unfolding blob by (rule storedItemCount_tileHeader)
  show "unat (of_nat ?n :: u32) = length (map (saveItem []) (rev (qualifyingItems E tile)))"
    using un by simp
next
  assume g: "SaveHouseItemsGuard D E houses db = (True, db')"
  then obtain stream rows where
    sh: "saveHouses D E houses ([], []) = Some (stream, rows)" and
    db': "db' = db\<lparr>tile_store := rows\<rparr>"
    by (auto simp: SaveHouseItemsGuard_def Let_def split: if_splits option.splits)
  from saveHouses_rows [OF sh] db'
  show "tile_store db' =
        concat (map (\<lambda>house. map (\<lambda>tile. (getId house, saveTile E [] tile))
                      (filter (\<lambda>tile. qualifyingItems E tile \<noteq> []) (getTiles house))) houses)"
    by (simp add: expectedRows_def)
qed

lemma saveTile_row_layout_witness:
  "saveTile ex_registry [] ex_empty_tile = [] \<and>
   saveTile ex_registry [] ex_tile = [1, 0, 2, 0, 7, 1, 0, 0, 0] @ ex_sack_bytes \<and>
   storedItemCount (saveTile ex_registry [] ex_tile) = Some 1 \<and>
   tile_store (snd (SaveHouseItemsGuard ex_driver ex_registry [ex_house] \<lparr>tile_store = []\<rparr>)) =
     [(5, [1, 0, 2, 0, 7, 1, 0, 0, 0] @ ex_sack_bytes)]"
proof -
  let ?db' = "snd (SaveHouseItemsGuard ex_driver ex_registry [ex_house] \<lparr>tile_store = []\<rparr>)"
  note full = saveTile_row_layout [of ex_registry ex_tile ex_driver "[ex_house]" "\<lparr>tile_store = []\<rparr>" ?db']
  note none = saveTile_row_layout [of ex_registry ex_empty_tile ex_driver "[]" "\<lparr>tile_store = []\<rparr>" ?db',
                THEN conjunct1, rule_format]
  have pos: "getPosition ex_tile = ex_position" by (simp add: ex_tile_def)
  have e: "saveTile ex_registry [] ex_empty_tile = []"
    by (rule none) (rule ex_empty_tile_qualifying)
  have q: "qualifyingItems ex_registry ex_tile \<noteq> [] \<and>
           length (qualifyingItems ex_registry ex_tile) < 65536"
    by (simp add: ex_tile_qualifying)
  note some = full [THEN conjunct2, THEN conjunct1, rule_format, OF q]
  have t: "saveTile ex_registry [] ex_tile = [1, 0, 2, 0, 7, 1, 0, 0, 0] @ ex_sack_bytes"
    using some [THEN conjunct1]
    by (simp add: ex_tile_qualifying ex_sack_saved tileHeader_def pos ex_position_def
          write_u8_def write_u16_def write_u32_def)
  have c: "storedItemCount (saveTile ex_registry [] ex_tile) = Some 1"
    using some [THEN conjunct2, THEN conjunct1] by (simp add: ex_tile_qualifying)
  have g: "SaveHouseItemsGuard ex_driver ex_registry [ex_house] \<lparr>tile_store = []\<rparr> = (True, ?db')"
    by (simp add: SaveHouseItemsGuard_def ex_driver_def ex_house_def Let_def t e ex_sack_bytes_def)
  from full [THEN conjunct2, THEN conjunct2, rule_format, OF g]
  have "tile_store ?db' = [(5, [1, 0, 2, 0, 7, 1, 0, 0, 0] @ ex_sack_bytes)]"
    by (simp add: ex_house_def ex_tile_qualifying ex_empty_tile_qualifying t)
  with e t c show ?thesis by simp
qed

subsection \<open>C8\<close>

text \<open>
  C8. On house-info load, for every stored house (the rows have distinct ids, and the
  house of the row exists): with the transfer flag off or a negative \<open>new_owner\<close> the
  owner is the stored owner and no transfer is recorded; with the flag on and
  \<open>new_owner\<close> 0 the items are transferred to the claim of the stored owner and the
  owner is cleared to 0; with the flag on and a positive \<open>new_owner\<close> the items are
  transferred to the claim of the stored owner and the owner is \<open>new_owner\<close>.
\<close>

theorem loadHouseInfo_owner_decision:
  assumes dist: "distinct (map row_id result)"
    and r: "r \<in> set result"
    and h: "houses (row_id r) = Some house"
    and res: "loadHouseInfo isTransferOnRestart result listRows (houses, g) = (ok, houses', g')"
  shows "ok \<and>
     (\<not> isTransferOnRestart \<or> sint (row_new_owner r) < 0 \<longrightarrow>
        map_option getOwner (houses' (row_id r)) = Some (row_owner r) \<and>
        transferHouseItemsToPlayer g' (row_id r) = transferHouseItemsToPlayer g (row_id r)) \<and>
     (isTransferOnRestart \<and> row_new_owner r = 0 \<longrightarrow>
        transferHouseItemsToPlayer g' (row_id r) = Some (row_owner r) \<and>
        map_option getOwner (houses' (row_id r)) = Some 0) \<and>
     (isTransferOnRestart \<and> 0 < sint (row_new_owner r) \<longrightarrow>
        transferHouseItemsToPlayer g' (row_id r) = Some (row_owner r) \<and>
        map_option getOwner (houses' (row_id r)) = Some (row_new_owner r))"
proof -
  let ?step = "\<lambda>st row. loadHouseInfoRow isTransferOnRestart row st"
  from r obtain xs ys where sp: "result = xs @ r # ys"
    by (auto simp: in_set_conv_decomp)
  from dist have nx: "row_id r \<notin> row_id ` set xs" and ny: "row_id r \<notin> row_id ` set ys"
    by (auto simp: sp)
  let ?st1 = "foldl ?step (houses, g) xs"
  let ?st2 = "loadHouseInfoRow isTransferOnRestart r ?st1"
  let ?st3 = "foldl ?step ?st2 ys"
  have f: "foldl ?step (houses, g) result = ?st3" by (simp add: sp)
  have 1: "fst ?st1 (row_id r) = Some house"
    and t1: "transferHouseItemsToPlayer (snd ?st1) (row_id r) = transferHouseItemsToPlayer g (row_id r)"
    using foldl_loadHouseInfoRow_other [OF nx, of isTransferOnRestart "(houses, g)"] h by simp_all
  from loadHouseInfoRow_own [OF 1, of isTransferOnRestart] obtain house' where
    2: "fst ?st2 (row_id r) = Some house'" and
    o: "getOwner house' = ownerAfterLoad isTransferOnRestart r" and
    t: "transferHouseItemsToPlayer (snd ?st2) (row_id r) =
             (if isTransferOnRestart \<and> 0 \<le> sint (row_new_owner r) then Some (row_owner r)
              else transferHouseItemsToPlayer (snd ?st1) (row_id r))"
    by blast
  have 3: "fst ?st3 (row_id r) = Some house'"
    and t3: "transferHouseItemsToPlayer (snd ?st3) (row_id r) =
               transferHouseItemsToPlayer (snd ?st2) (row_id r)"
    using foldl_loadHouseInfoRow_other [OF ny, of isTransferOnRestart ?st2] 2 by simp_all
  have ne: "result \<noteq> []" using r by auto
  from res ne f have ok: ok and hs: "houses' = loadHouseLists listRows (fst ?st3)"
    and gs: "g' = snd ?st3"
    by (auto simp: loadHouseInfo_def Let_def split: prod.splits)
  have own: "map_option getOwner (houses' (row_id r)) = Some (ownerAfterLoad isTransferOnRestart r)"
    unfolding hs loadHouseLists_owner by (simp add: 3 o)
  have tr: "transferHouseItemsToPlayer g' (row_id r) =
             (if isTransferOnRestart \<and> 0 \<le> sint (row_new_owner r) then Some (row_owner r)
              else transferHouseItemsToPlayer g (row_id r))"
    unfolding gs t3 t t1 ..
  show ?thesis
    using ok own tr by (auto simp: ownerAfterLoad_def)
qed

theorem loadHouseInfo_owner_decision_witness:
  "map_option getOwner (fst (snd (loadHouseInfo True ex_house_rows [] (ex_houses, ex_game))) 5) = Some 0 \<and>
   transferHouseItemsToPlayer (snd (snd (loadHouseInfo True ex_house_rows [] (ex_houses, ex_game)))) 5
     = Some 11 \<and>
   map_option getOwner (fst (snd (loadHouseInfo True ex_house_rows [] (ex_houses, ex_game))) 6) = Some 42 \<and>
   transferHouseItemsToPlayer (snd (snd (loadHouseInfo True ex_house_rows [] (ex_houses, ex_game)))) 6
     = Some 11 \<and>
   map_option getOwner (fst (snd (loadHouseInfo True ex_house_rows [] (ex_houses, ex_game))) 7) = Some 11 \<and>
   transferHouseItemsToPlayer (snd (snd (loadHouseInfo True ex_house_rows [] (ex_houses, ex_game)))) 7
     = None \<and>
   map_option getOwner (fst (snd (loadHouseInfo False ex_house_rows [] (ex_houses, ex_game))) 6) = Some 11 \<and>
   transferHouseItemsToPlayer (snd (snd (loadHouseInfo False ex_house_rows [] (ex_houses, ex_game)))) 6
     = None"
proof -
  have d: "distinct (map row_id ex_house_rows)"
    by (simp add: ex_house_rows_def ex_row_def)
  have r5: "ex_row 5 0 \<in> set ex_house_rows" and r6: "ex_row 6 42 \<in> set ex_house_rows"
    and r7: "ex_row 7 (- 1) \<in> set ex_house_rows"
    by (simp_all add: ex_house_rows_def)
  have h5: "ex_houses (row_id (ex_row 5 0)) = Some ex_house"
    and h6: "ex_houses (row_id (ex_row 6 42)) = Some (ex_house\<lparr>getId := 6\<rparr>)"
    and h7: "ex_houses (row_id (ex_row 7 (- 1))) = Some (ex_house\<lparr>getId := 7\<rparr>)"
    by (simp_all add: ex_houses_def ex_row_def)
  have res: "loadHouseInfo f ex_house_rows [] (ex_houses, ex_game) =
      (fst (loadHouseInfo f ex_house_rows [] (ex_houses, ex_game)),
       fst (snd (loadHouseInfo f ex_house_rows [] (ex_houses, ex_game))),
       snd (snd (loadHouseInfo f ex_house_rows [] (ex_houses, ex_game))))" for f
    by simp
  have t0: "transferHouseItemsToPlayer ex_game i = None" for i
    by (simp add: ex_game_def)
  have s42: "sint (42 :: 32 word) = 42" and sm: "sint (- 1 :: 32 word) = - 1" by simp_all
  from loadHouseInfo_owner_decision [OF d r5 h5 res [of True]]
       loadHouseInfo_owner_decision [OF d r6 h6 res [of True]]
       loadHouseInfo_owner_decision [OF d r7 h7 res [of True]]
       loadHouseInfo_owner_decision [OF d r6 h6 res [of False]]
  show ?thesis
    by (simp add: ex_row_def t0 s42)
qed

subsection \<open>C9\<close>

text \<open>
  C9. After any sequence of \<open>startDecay\<close> and \<open>stopDecay\<close> calls an item is in at most
  one decay bucket; after a further \<open>stopDecay\<close> it is in no bucket; after two further
  \<open>startDecay\<close> calls in a row it is in exactly one bucket, that of the later expiry tick.
\<close>

theorem decay_bucket_invariant:
  fixes calls :: "'i decay_call list"
  shows "(\<forall>tick tick'. tick \<in> bucketsOf (decay_run duration calls) item \<longrightarrow>
            tick' \<in> bucketsOf (decay_run duration calls) item \<longrightarrow> tick = tick') \<and>
         bucketsOf (stopDecay item (decay_run duration calls)) item = {} \<and>
         bucketsOf (startDecay duration now2 item
                      (startDecay duration now1 item (decay_run duration calls))) item =
           {now2 + duration item}"
proof (intro conjI allI impI)
  let ?d = "decay_run duration calls"
  have inv: "decay_inv ?d" by (rule decay_inv_run)
  fix tick tick'
  assume "tick \<in> bucketsOf ?d item" and "tick' \<in> bucketsOf ?d item"
  then show "tick = tick'"
    unfolding bucketsOf_inv [OF inv] by (auto split: option.splits)
next
  let ?d = "decay_run duration calls"
  have "decay_inv (stopDecay item ?d)"
    by (rule decay_inv_stopDecay) (rule decay_inv_run)
  from bucketsOf_inv [OF this, of item] show "bucketsOf (stopDecay item ?d) item = {}"
    by (simp add: scheduledAt_stopDecay)
next
  let ?d = "decay_run duration calls"
  have "decay_inv (startDecay duration now2 item (startDecay duration now1 item ?d))"
    by (intro decay_inv_startDecay decay_inv_run)
  from bucketsOf_inv [OF this, of item]
  show "bucketsOf (startDecay duration now2 item (startDecay duration now1 item ?d)) item =
          {now2 + duration item}"
    by (simp add: scheduledAt_startDecay)
qed

theorem decay_bucket_invariant_witness:
  "35 \<in> bucketsOf (decay_run (\<lambda>i. 5) ex_calls) 2 \<and>
   25 \<notin> bucketsOf (decay_run (\<lambda>i. 5) ex_calls) 2 \<and>
   bucketsOf (stopDecay 2 (decay_run (\<lambda>i. 5) ex_calls)) 2 = {} \<and>
   bucketsOf (startDecay (\<lambda>i. 5) 50 2 (startDecay (\<lambda>i. 5) 40 2 (decay_run (\<lambda>i. 5) ex_calls))) 2
     = {55}"
proof -
  note t = decay_bucket_invariant [of "\<lambda>i. 5" ex_calls "2::nat" 50 40]
  have a: "35 \<in> bucketsOf (decay_run (\<lambda>i. 5) ex_calls) 2"
    by (simp add: bucketsOf_def ex_calls_run)
  have "25 \<noteq> (35::int)" by simp
  with t [THEN conjunct1, rule_format, of 25 35] a
  have b: "25 \<notin> bucketsOf (decay_run (\<lambda>i. 5) ex_calls) 2" by blast
  from a b t [THEN conjunct2] show ?thesis by simp
qed

subsection \<open>C10\<close>

text \<open>
  C10. In \<open>saveTile\<close> the qualifying items are counted in a 16-bit counter that is then
  written as a 32-bit field. For a tile with at least one qualifying item, the stored
  item count is the number of qualifying items modulo 65536, while every qualifying item
  is encoded after it; so with more than 65535 qualifying items the stored count differs
  from the number of items that follow.
\<close>

theorem saveTile_count_is_16_bit:
  assumes "qualifyingItems E tile \<noteq> []"
  shows "\<exists>count.
           saveTile E [] tile =
             tileHeader (getPosition tile) count @
             concat (map (saveItem []) (rev (qualifyingItems E tile))) \<and>
           storedItemCount (saveTile E [] tile) = Some count \<and>
           unat count = length (qualifyingItems E tile) mod 65536 \<and>
           (65535 < length (qualifyingItems E tile) \<longrightarrow>
              unat count \<noteq> length (map (saveItem []) (rev (qualifyingItems E tile))))"
proof -
  let ?n = "length (qualifyingItems E tile)"
  let ?count = "ucast (of_nat ?n :: u16) :: u32"
  have blob: "saveTile E [] tile =
      tileHeader (getPosition tile) ?count @ concat (map (saveItem []) (rev (qualifyingItems E tile)))"
    using saveTile_nonempty [OF assms, of "[]"] by simp
  have stored: "storedItemCount (saveTile E [] tile) = Some ?count"
    unfolding blob by (rule storedItemCount_tileHeader)
  have md: "unat ?count = ?n mod 65536" by (rule unat_count16)
  have "unat ?count < 65536" unfolding md by simp
  then have "65535 < ?n \<longrightarrow> unat ?count \<noteq> length (map (saveItem []) (rev (qualifyingItems E tile)))"
    by simp
  with blob stored md show ?thesis by blast
qed

theorem saveTile_count_is_16_bit_witness:
  "storedItemCount (saveTile ex_registry [] ex_crowded_tile) = Some 0 \<and>
   length (qualifyingItems ex_registry ex_crowded_tile) = 65536"
proof -
  have ne: "qualifyingItems ex_registry ex_crowded_tile \<noteq> []"
    by (simp add: qualifying_crowded)
  from saveTile_count_is_16_bit [OF ne] obtain count where
    c: "storedItemCount (saveTile ex_registry [] ex_crowded_tile) = Some count"
    and u: "unat count = length (qualifyingItems ex_registry ex_crowded_tile) mod 65536"
    by blast
  from u have "unat count = 0" by (simp add: qualifying_crowded)
  then have "count = 0" by (simp add: unat_eq_0)
  with c show ?thesis by (simp add: qualifying_crowded)
qed

end
